theory Spec2Isabelle
  imports Main
begin

section \<open>The mount command of LiteFS (cmd/litefs/mount.go)\<close>

text \<open>
  The mount command parses a configuration, validates it, and starts the Store, the
  HTTP server, the Leaser and the FUSE file system in a fixed order. The packages it
  calls (litefs, consul, fuse, http, os, os/exec, expvar) are collaborators: what they
  return is a parameter of the model (the record \<open>env\<close>), and the calls the command
  makes are recorded, in order, in a trace of events. What the command prints and logs
  is left out; a nil dereference that a log line would make is kept, as a panic.
\<close>

subsection \<open>Errors\<close>

text \<open>
  A Go \<open>error\<close> value. \<open>OsNotExist\<close> is an error for which \<open>os.IsNotExist\<close> holds,
  \<open>Foreign\<close> any other error of a collaborator, \<open>Errorf\<close> an error built by
  \<open>fmt.Errorf\<close> from text only, and \<open>Wrapf p e\<close> is \<open>fmt.Errorf(p + "%w", e)\<close>.
  A function result of type \<open>error option\<close> is Go's \<open>error\<close> with \<open>nil = None\<close>.
\<close>

datatype error =
    OsNotExist string
  | Foreign string
  | Errorf string
  | Wrapf string error

fun Error :: "error \<Rightarrow> string" where
  "Error (OsNotExist m) = m"
| "Error (Foreign m) = m"
| "Error (Errorf m) = m"
| "Error (Wrapf p e) = p @ Error e"

fun os_IsNotExist :: "error \<Rightarrow> bool" where
  "os_IsNotExist (OsNotExist m) = True"
| "os_IsNotExist e = False"

subsection \<open>Configuration\<close>

text \<open>
  The fields of \<open>Config\<close> that mount.go reads. \<open>time.Duration\<close> values are integers
  (nanoseconds); the command only compares them with zero and copies them.
\<close>

record RetentionConfig =
  Retention_Duration :: int
  Retention_MonitorInterval :: int

record HTTPConfig =
  HTTP_Addr :: string

record ConsulConfig =
  Consul_URL :: string
  Consul_Hostname :: string
  Consul_AdvertiseURL :: string
  Consul_Key :: string
  Consul_TTL :: int
  Consul_LockDelay :: int

record StaticConfig =
  Static_Primary :: bool
  Static_Hostname :: string
  Static_AdvertiseURL :: string

record Config =
  MountDir :: string
  DataDir :: string
  Exec :: string
  Candidate :: bool
  Debug :: bool
  StrictVerify :: bool
  Retention :: RetentionConfig
  HTTP :: HTTPConfig
  Consul :: "ConsulConfig option"
  Static :: "StaticConfig option"

subsection \<open>The objects the command owns\<close>

text \<open>
  Each object of another package has the fields that mount.go sets, and fields for what
  its constructor is given (the constructors themselves are parameters, see \<open>env\<close>).
  A pointer that may be nil is an \<open>option\<close>. \<open>AdvertiseURLFn\<close> is a Go function
  without arguments. \<open>Cmd_running\<close> tells whether the subprocess has been started and
  not yet killed.
\<close>

record ConsulLeaser =
  Leaser_URL :: string
  Leaser_Hostname :: string
  Leaser_AdvertiseURL :: string
  Key :: string
  TTL :: int
  LockDelay :: int

record StaticLeaser =
  StaticLeaser_isPrimary :: bool
  StaticLeaser_hostname :: string
  StaticLeaser_advertiseURL :: string

datatype Leaser = ConsulL ConsulLeaser | StaticL StaticLeaser

record FileSystem =
  FileSystem_path :: string

datatype Client = HTTPClient

record Store =
  Store_path :: string
  Store_candidate :: bool
  Store_Debug :: bool
  Store_StrictVerify :: bool
  RetentionDuration :: int
  RetentionMonitorInterval :: int
  Store_Client :: "Client option"
  Store_Leaser :: "Leaser option"
  Invalidator :: "FileSystem option"

record Server =
  Server_addr :: string

record Cmd =
  Cmd_Path :: string
  Cmd_Args :: "string list"
  Cmd_running :: bool

record MountCommand =
  cmd :: "Cmd option"
  Config :: Config
  Store :: "Store option"
  Leaser :: "Leaser option"
  FileSystem :: "FileSystem option"
  HTTPServer :: "Server option"
  AdvertiseURLFn :: "(unit \<Rightarrow> string) option"

subsection \<open>Validate (lines 120-137)\<close>

definition Validate :: "MountCommand \<Rightarrow> error option" where
  "Validate c =
     (if MountDir (Config c) = [] then Some (Errorf ''mount directory required'')
      else if DataDir (Config c) = [] then Some (Errorf ''data directory required'')
      else if MountDir (Config c) = DataDir (Config c)
        then Some (Errorf ''mount directory and data directory cannot be the same path'')
      else if Consul (Config c) \<noteq> None \<and> Static (Config c) \<noteq> None
        then Some (Errorf ''cannot specify both 'consul' and 'static' lease modes'')
      else if Consul (Config c) = None \<and> Static (Config c) = None
        then Some (Errorf ''must specify a lease mode ('consul', 'static')'')
      else None)"

text \<open>
  The spec's words for a malformed configuration (sections 4.2 and 6): an empty mount
  or data directory, identical directories, both lease modes, or neither.
\<close>

definition malformed :: "Config \<Rightarrow> bool" where
  "malformed cfg \<longleftrightarrow>
     MountDir cfg = [] \<or> DataDir cfg = [] \<or> MountDir cfg = DataDir cfg \<or>
     (Consul cfg \<noteq> None \<and> Static cfg \<noteq> None) \<or>
     (Consul cfg = None \<and> Static cfg = None)"

subsection \<open>The environment, the process state and the trace\<close>

text \<open>
  What the collaborators answer during one call. The constructors of the litefs and
  consul packages are functions of their arguments; every fallible call has its result
  here. \<open>select_wait\<close> is the case taken by the \<open>select\<close> of \<open>Run\<close> (lines 208-213):
  the context's cancellation, the Store's readiness, or neither (the select blocks for
  ever); when both channels are ready Go takes one of the two cases, and the parameter
  is the one taken. \<open>ctx_Err\<close> is what \<open>ctx.Err()\<close> returns then. \<open>user_Current\<close> is the home directory of \<open>user.Current()\<close> when it returns a
  user. \<open>ReadConfigFile\<close> gives, for a path, the error returned and the change made
  to the \<open>Config\<close> passed by reference.
\<close>

datatype select_case = CtxDone | StoreReady | Neither

record env =
  litefs_NewStore :: "string \<Rightarrow> bool \<Rightarrow> Store"
  http_Listen :: "error option"
  http_Port :: int
  os_Hostname :: "error + string"
  consul_NewLeaser :: "string \<Rightarrow> string \<Rightarrow> string \<Rightarrow> ConsulLeaser"
  consul_Open :: "error option"
  litefs_NewStaticLeaser :: "bool \<Rightarrow> string \<Rightarrow> string \<Rightarrow> StaticLeaser"
  Store_Open :: "error option"
  fuse_Mount :: "error option"
  select_wait :: select_case
  ctx_Err :: error
  shellwords_Parse :: "string \<Rightarrow> error + string list"
  cmd_Start :: "error option"
  http_Close :: "error option"
  fuse_Unmount :: "error option"
  Store_Close :: "error option"
  user_Current :: "string option"
  filepath_Join :: "string \<Rightarrow> string \<Rightarrow> string"
  filepath_Abs :: "string \<Rightarrow> error + string"
  ReadConfigFile :: "string \<Rightarrow> bool \<Rightarrow> error option \<times> (Config \<Rightarrow> Config)"

text \<open>
  The state of the process outside the command: the package variable \<open>expvarOnce\<close>
  (line 334; \<open>True\<close> once its \<open>Do\<close> has run) and the variables published with
  \<open>expvar.Publish\<close>.
\<close>

record globals =
  expvarOnce :: bool
  expvar_vars :: "(string \<times> Store) list"

text \<open>
  The calls that create, open, start or stop a component, in the order made. A
  constructor call carries its arguments.
\<close>

datatype event =
    Call_NewStore string bool
  | Call_Listen
  | Call_consul_NewLeaser string string string
  | Call_consul_Open
  | Call_NewStaticLeaser bool string string
  | Set_Store_Leaser
  | Call_Store_Open
  | Call_Publish
  | Call_Mount
  | Call_Serve
  | Wait_Ready
  | Recv_CtxDone
  | Recv_Ready
  | Call_cmd_Start
  | Cmd_Started
  | Call_HTTP_Close
  | Call_Unmount
  | Call_Store_Close
  | Cmd_Killed
  | Call_ReadConfigFile string

type_synonym state = "MountCommand \<times> globals \<times> event list"

text \<open>
  How a call ends: it returns an error value (\<open>None\<close> is nil), it panics (a nil
  dereference, an index out of range, a reused expvar name), or it never returns.
\<close>

datatype outcome = Return "error option" | Panic | Blocked

text \<open>\<open>if err := f(); err != nil { return fmt.Errorf(msg + "%w", err) }\<close>, in two parts.\<close>

definition wrap_err :: "string \<Rightarrow> outcome \<times> state \<Rightarrow> outcome \<times> state" where
  "wrap_err msg r =
     (case r of
        (Return (Some e), s) \<Rightarrow> (Return (Some (Wrapf msg e)), s)
      | _ \<Rightarrow> r)"

definition and_then ::
  "outcome \<times> state \<Rightarrow> (state \<Rightarrow> outcome \<times> state) \<Rightarrow> outcome \<times> state" where
  "and_then r k = (case r of (Return None, s) \<Rightarrow> k s | _ \<Rightarrow> r)"

subsection \<open>initStore (lines 263-271) and initHTTPServer (lines 299-306)\<close>

fun initStore :: "env \<Rightarrow> state \<Rightarrow> outcome \<times> state" where
  "initStore E (c, g, t) =
     (Return None,
      c\<lparr>Store := Some ((litefs_NewStore E (DataDir (Config c)) (Candidate (Config c)))
          \<lparr>Store_Debug := Debug (Config c),
           Store_StrictVerify := StrictVerify (Config c),
           RetentionDuration := Retention_Duration (Retention (Config c)),
           RetentionMonitorInterval := Retention_MonitorInterval (Retention (Config c)),
           Store_Client := Some HTTPClient\<rparr>)\<rparr>,
      g, t @ [Call_NewStore (DataDir (Config c)) (Candidate (Config c))])"

fun initHTTPServer :: "env \<Rightarrow> state \<Rightarrow> outcome \<times> state" where
  "initHTTPServer E (c, g, t) =
     (case http_Listen E of
        Some e \<Rightarrow>
          (Return (Some (Wrapf ''cannot open http server: '' e)), c, g, t @ [Call_Listen])
      | None \<Rightarrow>
          (Return None,
           c\<lparr>HTTPServer := Some \<lparr>Server_addr = HTTP_Addr (HTTP (Config c))\<rparr>\<rparr>,
           g, t @ [Call_Listen]))"

subsection \<open>initConsul (lines 223-261)\<close>

text \<open>\<open>fmt.Sprintf("%d", n)\<close> for an \<open>int\<close>.\<close>

definition digit :: "nat \<Rightarrow> char" where
  "digit d = ''0123456789'' ! d"

fun decimal :: "nat \<Rightarrow> string" where
  "decimal n = (if n < 10 then [digit n] else decimal (n div 10) @ [digit (n mod 10)])"

declare decimal.simps [simp del]

definition Sprintf_d :: "int \<Rightarrow> string" where
  "Sprintf_d i = (if i < 0 then CHR ''-'' # decimal (nat (- i)) else decimal (nat i))"

text \<open>
  What a decimal numeral denotes: the value of a digit, of a string of digits, and of a
  string of digits with an optional minus sign before it.
\<close>

definition digit_value :: "char \<Rightarrow> nat" where
  "digit_value ch = of_char ch - 48"

definition nat_of_digits :: "string \<Rightarrow> nat" where
  "nat_of_digits ds = foldl (\<lambda>n ch. 10 * n + digit_value ch) 0 ds"

definition read_int :: "string \<Rightarrow> int" where
  "read_int s =
     (case s of
        [] \<Rightarrow> 0
      | ch # ds \<Rightarrow> if ch = CHR ''-'' then - int (nat_of_digits ds) else int (nat_of_digits s))"

text \<open>Lines 226-232: the hostname of the configuration, or the operating system's.\<close>

definition consul_hostname :: "env \<Rightarrow> ConsulConfig \<Rightarrow> error + string" where
  "consul_hostname E cc =
     (if Consul_Hostname cc = [] then os_Hostname E else Inr (Consul_Hostname cc))"

text \<open>
  Lines 234-242: the advertise URL. \<open>None\<close> is the panic of \<open>c.HTTPServer.Port()\<close> on
  a nil server.
\<close>

definition consul_advertiseURL ::
  "env \<Rightarrow> MountCommand \<Rightarrow> ConsulConfig \<Rightarrow> string \<Rightarrow> string option" where
  "consul_advertiseURL E c cc hostname =
     (let advertiseURL =
        (case AdvertiseURLFn c of
           Some f \<Rightarrow> f ()
         | None \<Rightarrow> Consul_AdvertiseURL cc)
      in if advertiseURL = [] \<and> hostname \<noteq> []
         then (case HTTPServer c of
                 None \<Rightarrow> None
               | Some srv \<Rightarrow> Some (''http://'' @ hostname @ '':'' @ Sprintf_d (http_Port E)))
         else Some advertiseURL)"

text \<open>Lines 245-253: the configured key, TTL and lock delay replace the leaser's.\<close>

definition consul_overrides :: "ConsulConfig \<Rightarrow> ConsulLeaser \<Rightarrow> ConsulLeaser" where
  "consul_overrides cc leaser =
     (let l1 = (if Consul_Key cc \<noteq> [] then leaser\<lparr>Key := Consul_Key cc\<rparr> else leaser);
          l2 = (if Consul_TTL cc > 0 then l1\<lparr>TTL := Consul_TTL cc\<rparr> else l1);
          l3 = (if Consul_LockDelay cc > 0 then l2\<lparr>LockDelay := Consul_LockDelay cc\<rparr> else l2)
      in l3)"

fun initConsul :: "env \<Rightarrow> state \<Rightarrow> outcome \<times> state" where
  "initConsul E (c, g, t) =
     (case Consul (Config c) of
        None \<Rightarrow> (Panic, c, g, t)
      | Some cc \<Rightarrow>
          (case consul_hostname E cc of
             Inl e \<Rightarrow> (Return (Some e), c, g, t)
           | Inr hostname \<Rightarrow>
               (case consul_advertiseURL E c cc hostname of
                  None \<Rightarrow> (Panic, c, g, t)
                | Some advertiseURL \<Rightarrow>
                    (let leaser = consul_overrides cc
                           (consul_NewLeaser E (Consul_URL cc) hostname advertiseURL);
                         t' = t @ [Call_consul_NewLeaser (Consul_URL cc) hostname advertiseURL, Call_consul_Open]
                     in case consul_Open E of
                          Some e \<Rightarrow>
                            (Return (Some (Wrapf ''cannot connect to consul: '' e)), c, g, t')
                        | None \<Rightarrow>
                            (Return None, c\<lparr>Leaser := Some (ConsulL leaser)\<rparr>, g, t')))))"

subsection \<open>openStore (lines 273-283) and expvarOnce (line 334)\<close>

text \<open>
  \<open>expvar.Publish\<close> panics when the name is already registered (\<open>None\<close>).
  \<open>expvarOnce.Do(f)\<close> runs \<open>f\<close> only when the flag is not set, and sets it.
\<close>

definition expvar_Publish :: "string \<Rightarrow> Store \<Rightarrow> globals \<Rightarrow> globals option" where
  "expvar_Publish name v g =
     (if name \<in> set (map fst (expvar_vars g)) then None
      else Some (g\<lparr>expvar_vars := expvar_vars g @ [(name, v)]\<rparr>))"

fun openStore :: "env \<Rightarrow> state \<Rightarrow> outcome \<times> state" where
  "openStore E (c, g, t) =
     (case Store c of
        None \<Rightarrow> (Panic, c, g, t)
      | Some st \<Rightarrow>
          (let st' = st\<lparr>Store_Leaser := Leaser c\<rparr>;
               c' = c\<lparr>Store := Some st'\<rparr>;
               t' = t @ [Set_Store_Leaser, Call_Store_Open]
           in case Store_Open E of
                Some e \<Rightarrow> (Return (Some e), c', g, t')
              | None \<Rightarrow>
                  if expvarOnce g then (Return None, c', g, t')
                  else (case expvar_Publish ''store'' st' (g\<lparr>expvarOnce := True\<rparr>) of
                          None \<Rightarrow> (Panic, c', g\<lparr>expvarOnce := True\<rparr>, t' @ [Call_Publish])
                        | Some g' \<Rightarrow> (Return None, c', g', t' @ [Call_Publish]))))"

subsection \<open>initFileSystem (lines 285-297) and execCmd (lines 308-332)\<close>

fun initFileSystem :: "env \<Rightarrow> state \<Rightarrow> outcome \<times> state" where
  "initFileSystem E (c, g, t) =
     (let fsys = \<lparr>FileSystem_path = MountDir (Config c)\<rparr>;
          t' = t @ [Call_Mount]
      in case fuse_Mount E of
           Some e \<Rightarrow>
             (Return (Some (Errorf (''cannot open file system: '' @ Error e))), c, g, t')
         | None \<Rightarrow>
             (case Store c of
                None \<Rightarrow> (Panic, c, g, t')
              | Some st \<Rightarrow>
                  (Return None,
                   c\<lparr>Store := Some (st\<lparr>Invalidator := Some fsys\<rparr>), FileSystem := Some fsys\<rparr>,
                   g, t')))"

text \<open>
  \<open>c.cmd\<close> is assigned before \<open>Start\<close> is called; the subprocess runs once \<open>Start\<close>
  has returned nil (event \<open>Cmd_Started\<close>). \<open>args[0]\<close> of an empty list panics. The
  goroutine that waits for the subprocess and reports on \<open>execCh\<close> is left out.
\<close>

fun execCmd :: "env \<Rightarrow> state \<Rightarrow> outcome \<times> state" where
  "execCmd E (c, g, t) =
     (if Exec (Config c) = [] then (Return None, c, g, t)
      else case shellwords_Parse E (Exec (Config c)) of
             Inl e \<Rightarrow> (Return (Some (Wrapf ''cannot parse exec command: '' e)), c, g, t)
           | Inr [] \<Rightarrow> (Panic, c, g, t)
           | Inr (a # as) \<Rightarrow>
               (case cmd_Start E of
                  Some e \<Rightarrow>
                    (Return (Some (Wrapf ''cannot start exec command: '' e)),
                     c\<lparr>cmd := Some \<lparr>Cmd_Path = a, Cmd_Args = as, Cmd_running = False\<rparr>\<rparr>,
                     g, t @ [Call_cmd_Start])
                | None \<Rightarrow>
                    (Return None,
                     c\<lparr>cmd := Some \<lparr>Cmd_Path = a, Cmd_Args = as, Cmd_running = True\<rparr>\<rparr>,
                     g, t @ [Call_cmd_Start, Cmd_Started])))"

subsection \<open>Run (lines 173-221)\<close>

text \<open>Lines 183-192: the leaser is chosen by the presence of the consul section.\<close>

fun instantiate_leaser :: "env \<Rightarrow> state \<Rightarrow> outcome \<times> state" where
  "instantiate_leaser E (c, g, t) =
     (if Consul (Config c) \<noteq> None
      then wrap_err ''cannot init consul: '' (initConsul E (c, g, t))
      else (case Static (Config c) of
              None \<Rightarrow> (Panic, c, g, t)
            | Some sc \<Rightarrow>
                (Return None,
                 c\<lparr>Leaser := Some (StaticL (litefs_NewStaticLeaser E
                      (Static_Primary sc) (Static_Hostname sc) (Static_AdvertiseURL sc)))\<rparr>,
                 g,
                 t @ [Call_NewStaticLeaser
                        (Static_Primary sc) (Static_Hostname sc) (Static_AdvertiseURL sc)])))"

text \<open>Lines 203-213: the HTTP server serves, then Run waits for readiness or cancellation.\<close>

fun wait_ready :: "env \<Rightarrow> state \<Rightarrow> outcome \<times> state" where
  "wait_ready E (c, g, t) =
     (let t' = t @ [Call_Serve, Wait_Ready]
      in case select_wait E of
           CtxDone \<Rightarrow> (Return (Some (ctx_Err E)), c, g, t' @ [Recv_CtxDone])
         | StoreReady \<Rightarrow> (Return None, c, g, t' @ [Recv_Ready])
         | Neither \<Rightarrow> (Blocked, c, g, t'))"

definition Run :: "env \<Rightarrow> state \<Rightarrow> outcome \<times> state" where
  "Run E s0 =
     and_then (wrap_err ''cannot init store: '' (initStore E s0)) (\<lambda>s1.
     and_then (wrap_err ''cannot init http server: '' (initHTTPServer E s1)) (\<lambda>s2.
     and_then (instantiate_leaser E s2) (\<lambda>s3.
     and_then (wrap_err ''cannot open store: '' (openStore E s3)) (\<lambda>s4.
     and_then (wrap_err ''cannot init file system: '' (initFileSystem E s4)) (\<lambda>s5.
     and_then (wait_ready E s5) (\<lambda>s6.
     wrap_err ''cannot exec: '' (execCmd E s6)))))))"

subsection \<open>The select of Run and the order of the two signals\<close>






subsection \<open>Close (lines 151-171)\<close>

fun Close :: "env \<Rightarrow> state \<Rightarrow> error option \<times> state" where
  "Close E (c, g, t) =
     (let (err1, t1) =
            (case HTTPServer c of
               None \<Rightarrow> (None, t)
             | Some srv \<Rightarrow> (http_Close E, t @ [Call_HTTP_Close]));
          (err2, t2) =
            (case FileSystem c of
               None \<Rightarrow> (err1, t1)
             | Some fsys \<Rightarrow>
                 ((if err1 = None then fuse_Unmount E else err1), t1 @ [Call_Unmount]));
          (err3, t3) =
            (case Store c of
               None \<Rightarrow> (err2, t2)
             | Some st \<Rightarrow>
                 ((if err2 = None then Store_Close E else err2), t2 @ [Call_Store_Close]))
      in (err3, c, g, t3))"

subsection \<open>parseConfig (lines 97-117) and configSearchPaths (lines 142-149)\<close>

definition configSearchPaths :: "env \<Rightarrow> string list" where
  "configSearchPaths E =
     [''litefs.yml''] @
     (case user_Current E of
        None \<Rightarrow> []
      | Some HomeDir \<Rightarrow> if HomeDir \<noteq> [] then [filepath_Join E HomeDir ''litefs.yml''] else []) @
     [''/etc/litefs.yml'']"

text \<open>The loop of lines 104-116 over the search paths.\<close>

fun read_paths :: "env \<Rightarrow> bool \<Rightarrow> string list \<Rightarrow> state \<Rightarrow> outcome \<times> state" where
  "read_paths E expandEnv [] (c, g, t) = (Return (Some (Errorf ''config file not found'')), c, g, t)"
| "read_paths E expandEnv (p # ps) (c, g, t) =
     (case filepath_Abs E p of
        Inl e \<Rightarrow> (Return (Some e), c, g, t)
      | Inr path \<Rightarrow>
          (case ReadConfigFile E path expandEnv of
             (None, upd) \<Rightarrow>
               (Return None, c\<lparr>Config := upd (Config c)\<rparr>, g, t @ [Call_ReadConfigFile path])
           | (Some e, upd) \<Rightarrow>
               if \<not> os_IsNotExist e
               then (Return (Some (Errorf (''cannot read config file at '' @ path @ '': '' @ Error e))),
                     c\<lparr>Config := upd (Config c)\<rparr>, g, t @ [Call_ReadConfigFile path])
               else read_paths E expandEnv ps
                      (c\<lparr>Config := upd (Config c)\<rparr>, g, t @ [Call_ReadConfigFile path])))"

fun parseConfig :: "env \<Rightarrow> string \<Rightarrow> bool \<Rightarrow> state \<Rightarrow> outcome \<times> state" where
  "parseConfig E configPath expandEnv (c, g, t) =
     (if configPath \<noteq> []
      then (case ReadConfigFile E configPath expandEnv of
              (err, upd) \<Rightarrow>
                (Return err, c\<lparr>Config := upd (Config c)\<rparr>, g, t @ [Call_ReadConfigFile configPath]))
      else read_paths E expandEnv (configSearchPaths E) (c, g, t))"

text \<open>
  The spec's words for the search: a search path is missing when it resolves and
  reading it reports that the file does not exist; \<open>attempt\<close> is what parseConfig
  returns, and reads, at the first path that is not missing.
\<close>

definition abs_path :: "env \<Rightarrow> string \<Rightarrow> string" where
  "abs_path E p = (case filepath_Abs E p of Inl e \<Rightarrow> p | Inr path \<Rightarrow> path)"

definition missing :: "env \<Rightarrow> bool \<Rightarrow> string \<Rightarrow> bool" where
  "missing E expandEnv p =
     (case filepath_Abs E p of
        Inl e \<Rightarrow> False
      | Inr path \<Rightarrow>
          (case fst (ReadConfigFile E path expandEnv) of
             None \<Rightarrow> False
           | Some e \<Rightarrow> os_IsNotExist e))"

definition attempt :: "env \<Rightarrow> bool \<Rightarrow> string \<Rightarrow> outcome \<times> event list" where
  "attempt E expandEnv p =
     (case filepath_Abs E p of
        Inl e \<Rightarrow> (Return (Some e), [])
      | Inr path \<Rightarrow>
          (case fst (ReadConfigFile E path expandEnv) of
             None \<Rightarrow> (Return None, [Call_ReadConfigFile path])
           | Some e \<Rightarrow>
               (Return (Some (Errorf (''cannot read config file at '' @ path @ '': '' @ Error e))),
                [Call_ReadConfigFile path])))"

definition search :: "env \<Rightarrow> bool \<Rightarrow> string list \<Rightarrow> outcome \<times> event list" where
  "search E expandEnv ps =
     (let reads = map (\<lambda>p. Call_ReadConfigFile (abs_path E p))
                    (takeWhile (missing E expandEnv) ps)
      in case dropWhile (missing E expandEnv) ps of
           [] \<Rightarrow> (Return (Some (Errorf ''config file not found'')), reads)
         | p # rest \<Rightarrow> (fst (attempt E expandEnv p), reads @ snd (attempt E expandEnv p)))"

subsection \<open>NewMountCommand (lines 41-46)\<close>

text \<open>The argument is the result of \<open>NewConfig()\<close>; every pointer field starts nil.\<close>

definition NewMountCommand :: "Config \<Rightarrow> MountCommand" where
  "NewMountCommand cfg =
     \<lparr>cmd = None, Config = cfg, Store = None, Leaser = None, FileSystem = None,
      HTTPServer = None, AdvertiseURLFn = None\<rparr>"

text \<open>The process state at start: \<open>expvarOnce\<close> not yet run, nothing published.\<close>

definition globals0 :: globals where
  "globals0 = \<lparr>expvarOnce = False, expvar_vars = []\<rparr>"

subsection \<open>Reading traces\<close>

text \<open>The parts of a call's result.\<close>

definition result_of :: "outcome \<times> state \<Rightarrow> outcome" where
  "result_of r = fst r"

definition command_of :: "outcome \<times> state \<Rightarrow> MountCommand" where
  "command_of r = fst (snd r)"

definition globals_of :: "outcome \<times> state \<Rightarrow> globals" where
  "globals_of r = fst (snd (snd r))"

definition trace_of :: "outcome \<times> state \<Rightarrow> event list" where
  "trace_of r = snd (snd (snd r))"


text \<open>A call of a Leaser constructor, of either variant.\<close>

fun is_NewLeaser :: "event \<Rightarrow> bool" where
  "is_NewLeaser (Call_consul_NewLeaser url host adv) = True"
| "is_NewLeaser (Call_NewStaticLeaser primary host adv) = True"
| "is_NewLeaser e = False"

text \<open>\<open>in_order es t\<close>: the events \<open>es\<close> occur in the trace \<open>t\<close> in this order.\<close>

fun in_order :: "event list \<Rightarrow> event list \<Rightarrow> bool" where
  "in_order [] t = True"
| "in_order (e # es) [] = False"
| "in_order (e # es) (x # xs) = (if x = e then in_order es xs else in_order (e # es) xs)"

text \<open>
  \<open>only_after a b t\<close>: \<open>b\<close> does not occur in \<open>t\<close> before the first \<open>a\<close> (so a trace
  that holds \<open>b\<close> holds an earlier \<open>a\<close>).
\<close>

fun only_after :: "event \<Rightarrow> event \<Rightarrow> event list \<Rightarrow> bool" where
  "only_after a b [] = True"
| "only_after a b (x # xs) = (if x = a then True else if x = b then False else only_after a b xs)"

text \<open>
  The spec's words for the result of Close: of the steps attempted, in order, the first
  error that is not nil.
\<close>

fun first_error :: "(bool \<times> error option) list \<Rightarrow> error option" where
  "first_error [] = None"
| "first_error ((attempted, e) # xs) = (if attempted \<and> e \<noteq> None then e else first_error xs)"

subsection \<open>Shutdown paths\<close>

text \<open>
  The subprocess is created by \<open>exec.CommandContext(ctx, ...)\<close> (line 322): os/exec kills
  it when \<open>ctx\<close> becomes done. A shutdown path is a sequence of cancellations of that
  context and calls of Close, in the order the caller makes them.
\<close>

fun ctx_cancel :: "state \<Rightarrow> state" where
  "ctx_cancel (c, g, t) =
     (case cmd c of
        None \<Rightarrow> (c, g, t)
      | Some p \<Rightarrow>
          if Cmd_running p
          then (c\<lparr>cmd := Some (p\<lparr>Cmd_running := False\<rparr>)\<rparr>, g, t @ [Cmd_Killed])
          else (c, g, t))"

datatype action = CancelCtx | CallClose

fun shutdown :: "env \<Rightarrow> action list \<Rightarrow> state \<Rightarrow> state" where
  "shutdown E [] s = s"
| "shutdown E (CancelCtx # as) s = shutdown E as (ctx_cancel s)"
| "shutdown E (CallClose # as) s = shutdown E as (snd (Close E s))"

subsection \<open>Sequences of openStore calls in one process\<close>

text \<open>
  Each call has its own environment and command; the process state and the trace are
  carried from call to call. A panic ends the process.
\<close>

fun openStore_calls :: "(env \<times> MountCommand) list \<Rightarrow> globals \<times> event list \<Rightarrow> globals \<times> event list" where
  "openStore_calls [] (g, t) = (g, t)"
| "openStore_calls ((E, c) # cs) (g, t) =
     (case openStore E (c, g, t) of
        (Panic, c', g', t') \<Rightarrow> (g', t')
      | (r, c', g', t') \<Rightarrow> openStore_calls cs (g', t'))"

text \<open>
  What a sequence of calls should publish: the Store of the first call that opens its
  Store, with the command's Leaser assigned, under the name \<open>store\<close>; nothing when no
  call opens its Store, or when a call on a command with no Store comes before (the
  assignment of line 274 panics there).
\<close>

fun first_opened :: "(env \<times> MountCommand) list \<Rightarrow> (string \<times> Store) list" where
  "first_opened [] = []"
| "first_opened ((E, c) # cs) =
     (case Store c of
        None \<Rightarrow> []
      | Some st \<Rightarrow>
          (case Store_Open E of
             None \<Rightarrow> [(''store'', st\<lparr>Store_Leaser := Leaser c\<rparr>)]
           | Some e \<Rightarrow> first_opened cs))"

text \<open>The flag \<open>expvarOnce\<close> is set exactly when the variable has been published.\<close>

definition once_inv :: "globals \<Rightarrow> event list \<Rightarrow> bool" where
  "once_inv g t \<longleftrightarrow>
     (if expvarOnce g then length (expvar_vars g) = 1 else expvar_vars g = []) \<and>
     count_list t Call_Publish = length (expvar_vars g)"

subsection \<open>Example inputs\<close>

definition example_env :: env where
  "example_env =
     \<lparr>litefs_NewStore = (\<lambda>path candidate.
        \<lparr>Store_path = path, Store_candidate = candidate, Store_Debug = False,
         Store_StrictVerify = False, RetentionDuration = 0, RetentionMonitorInterval = 0,
         Store_Client = None, Store_Leaser = None, Invalidator = None\<rparr>),
      http_Listen = None,
      http_Port = 20202,
      os_Hostname = Inr ''node1'',
      consul_NewLeaser = (\<lambda>url host adv.
        \<lparr>Leaser_URL = url, Leaser_Hostname = host, Leaser_AdvertiseURL = adv,
         Key = ''litefs/primary'', TTL = 10000000000, LockDelay = 1000000000\<rparr>),
      consul_Open = None,
      litefs_NewStaticLeaser = (\<lambda>primary host adv.
        \<lparr>StaticLeaser_isPrimary = primary, StaticLeaser_hostname = host,
         StaticLeaser_advertiseURL = adv\<rparr>),
      Store_Open = None,
      fuse_Mount = None,
      select_wait = StoreReady,
      ctx_Err = Foreign ''context canceled'',
      shellwords_Parse = (\<lambda>line. Inr [line]),
      cmd_Start = None,
      http_Close = None,
      fuse_Unmount = None,
      Store_Close = None,
      user_Current = Some ''/root'',
      filepath_Join = (\<lambda>dir name. dir @ ''/'' @ name),
      filepath_Abs = (\<lambda>p. Inr (if take 1 p = ''/'' then p else ''/work/'' @ p)),
      ReadConfigFile = (\<lambda>path expandEnv. (Some (OsNotExist ''no such file''), (\<lambda>cfg. cfg)))\<rparr>"

definition static_config :: Config where
  "static_config =
     \<lparr>MountDir = ''/litefs'', DataDir = ''/var/lib/litefs'', Exec = ''myapp'',
      Candidate = True, Debug = False, StrictVerify = False,
      Retention = \<lparr>Retention_Duration = 600000000000, Retention_MonitorInterval = 60000000000\<rparr>,
      HTTP = \<lparr>HTTP_Addr = '':20202''\<rparr>,
      Consul = None,
      Static = Some \<lparr>Static_Primary = True, Static_Hostname = ''node1'',
                      Static_AdvertiseURL = ''http://node1:20202''\<rparr>\<rparr>"

definition consul_config :: Config where
  "consul_config =
     static_config
       \<lparr>Consul := Some \<lparr>Consul_URL = ''http://localhost:8500'', Consul_Hostname = [],
                         Consul_AdvertiseURL = [], Consul_Key = ''litefs/test'',
                         Consul_TTL = 0, Consul_LockDelay = 5000000000\<rparr>,
        Static := None\<rparr>"

text \<open>The context is cancelled while Run waits for readiness.\<close>

definition cancelled_env :: env where
  "cancelled_env = example_env\<lparr>select_wait := CtxDone\<rparr>"


definition race_env :: env where
  "race_env =
     example_env\<lparr>select_wait := StoreReady, cmd_Start := Some (Foreign ''context canceled'')\<rparr>"


text \<open>The HTTP server cannot listen.\<close>

definition no_listen_env :: env where
  "no_listen_env = example_env\<lparr>http_Listen := Some (Foreign ''address already in use'')\<rparr>"

text \<open>The operating system cannot tell its hostname.\<close>

definition no_hostname_env :: env where
  "no_hostname_env = example_env\<lparr>os_Hostname := Inl (Foreign ''hostname unavailable'')\<rparr>"

text \<open>The state of the command and the process after a run that returned nil.\<close>

definition running_state :: state where
  "running_state = snd (Run example_env (NewMountCommand static_config, globals0, []))"

text \<open>Closing the HTTP server and closing the Store both fail.\<close>

definition failing_close_env :: env where
  "failing_close_env =
     example_env\<lparr>http_Close := Some (Foreign ''http close failed''),
                  Store_Close := Some (Foreign ''store close failed'')\<rparr>"

text \<open>The Store cannot be opened.\<close>

definition failing_open_env :: env where
  "failing_open_env = example_env\<lparr>Store_Open := Some (Foreign ''open failed'')\<rparr>"

text \<open>A command whose Store has been created for the data directory \<open>dir\<close>.\<close>

definition stored_command :: "string \<Rightarrow> MountCommand" where
  "stored_command dir =
     (NewMountCommand (static_config\<lparr>DataDir := dir\<rparr>))
       \<lparr>Store := Some (litefs_NewStore example_env dir True)\<rparr>"

text \<open>The HTTP server listens on port 8080.\<close>

definition port_8080_env :: env where
  "port_8080_env = example_env\<lparr>http_Port := 8080\<rparr>"

text \<open>The same command once Run has instantiated its static leaser.\<close>

definition leased_command :: "string \<Rightarrow> MountCommand" where
  "leased_command dir =
     (stored_command dir)
       \<lparr>Leaser := Some (StaticL (litefs_NewStaticLeaser example_env True ''node1''
          ''http://node1:20202''))\<rparr>"

text \<open>A process state in which the variable has been published.\<close>

definition published_globals :: globals where
  "published_globals =
     \<lparr>expvarOnce = True,
      expvar_vars = [(''store'', litefs_NewStore example_env ''/b'' True)]\<rparr>"

text \<open>A command that listens, with a consul section and an injected advertise URL.\<close>

definition injected_command :: MountCommand where
  "injected_command =
     (NewMountCommand consul_config)
       \<lparr>HTTPServer := Some \<lparr>Server_addr = '':20202''\<rparr>,
        AdvertiseURLFn := Some (\<lambda>u. ''http://injected:1'')\<rparr>"

text \<open>The configuration file in the home directory exists and cannot be decoded.\<close>

definition bad_home_config_env :: env where
  "bad_home_config_env =
     example_env\<lparr>ReadConfigFile := (\<lambda>path expandEnv.
        if path = ''/root/litefs.yml'' then (Some (Foreign ''yaml: bad''), (\<lambda>cfg. cfg))
        else (Some (OsNotExist ''no such file''), (\<lambda>cfg. cfg)))\<rparr>"

subsection \<open>Run, from each of its steps on\<close>

text \<open>
  The rest of Run from the leaser's instantiation (line 183), the Store's opening (line
  194), the mount (line 198) and the wait (line 203) on, and the traces each can leave.
  They serve the proofs about Run, which go step by step.
\<close>

definition Run_wait :: "env \<Rightarrow> state \<Rightarrow> outcome \<times> state" where
  "Run_wait E s5 = and_then (wait_ready E s5) (\<lambda>s6. wrap_err ''cannot exec: '' (execCmd E s6))"

definition Run_mount :: "env \<Rightarrow> state \<Rightarrow> outcome \<times> state" where
  "Run_mount E s4 = and_then (wrap_err ''cannot init file system: '' (initFileSystem E s4)) (Run_wait E)"

definition Run_open :: "env \<Rightarrow> state \<Rightarrow> outcome \<times> state" where
  "Run_open E s3 = and_then (wrap_err ''cannot open store: '' (openStore E s3)) (Run_mount E)"

definition Run_leaser :: "env \<Rightarrow> state \<Rightarrow> outcome \<times> state" where
  "Run_leaser E s2 = and_then (instantiate_leaser E s2) (Run_open E)"

definition listening :: "MountCommand \<Rightarrow> MountCommand" where
  "listening c = c\<lparr>HTTPServer := Some \<lparr>Server_addr = HTTP_Addr (HTTP (Config c))\<rparr>\<rparr>"

definition exec_seg :: "outcome \<Rightarrow> event list \<Rightarrow> bool" where
  "exec_seg r x \<longleftrightarrow>
     x = [] \<or> (x = [Call_cmd_Start] \<and> r \<noteq> Return None) \<or> x = [Call_cmd_Start, Cmd_Started]"

definition wait_seg :: "env \<Rightarrow> outcome \<Rightarrow> event list \<Rightarrow> bool" where
  "wait_seg E r w \<longleftrightarrow>
     (w = [Call_Serve, Wait_Ready] \<and> r = Blocked \<and> select_wait E = Neither) \<or>
     (w = [Call_Serve, Wait_Ready, Recv_CtxDone] \<and> r = Return (Some (ctx_Err E)) \<and> select_wait E = CtxDone) \<or>
     (\<exists>x. w = [Call_Serve, Wait_Ready, Recv_Ready] @ x \<and> select_wait E = StoreReady \<and> exec_seg r x)"

definition mount_seg :: "env \<Rightarrow> outcome \<Rightarrow> event list \<Rightarrow> bool" where
  "mount_seg E r v \<longleftrightarrow>
     (v = [Call_Mount] \<and> r \<noteq> Return None) \<or> (\<exists>w. v = Call_Mount # w \<and> wait_seg E r w)"

definition open_seg :: "env \<Rightarrow> outcome \<Rightarrow> event list \<Rightarrow> bool" where
  "open_seg E r u \<longleftrightarrow>
     (u = [] \<and> r \<noteq> Return None) \<or>
     (\<exists>v. (u = [Set_Store_Leaser, Call_Store_Open] @ v \<or>
           u = [Set_Store_Leaser, Call_Store_Open, Call_Publish] @ v) \<and>
        ((v = [] \<and> r \<noteq> Return None) \<or> mount_seg E r v))"

definition leaser_seg :: "env \<Rightarrow> MountCommand \<Rightarrow> outcome \<Rightarrow> event list \<Rightarrow> bool" where
  "leaser_seg E c r l \<longleftrightarrow>
     (l = [] \<and> r \<noteq> Return None \<and>
        (case Consul (Config c) of
           Some cc \<Rightarrow> (\<forall>h. consul_hostname E cc = Inr h \<longrightarrow> consul_advertiseURL E c cc h = None)
         | None \<Rightarrow> Static (Config c) = None)) \<or>
     (\<exists>cc h a u. Consul (Config c) = Some cc \<and> consul_hostname E cc = Inr h \<and>
        consul_advertiseURL E c cc h = Some a \<and>
        l = [Call_consul_NewLeaser (Consul_URL cc) h a, Call_consul_Open] @ u \<and>
        ((u = [] \<and> r \<noteq> Return None) \<or> open_seg E r u)) \<or>
     (\<exists>sc u. Consul (Config c) = None \<and> Static (Config c) = Some sc \<and>
        l = [Call_NewStaticLeaser (Static_Primary sc) (Static_Hostname sc) (Static_AdvertiseURL sc)] @ u \<and>
        open_seg E r u)"


declare initStore.simps [simp del] initHTTPServer.simps [simp del] initConsul.simps [simp del]
  openStore.simps [simp del] initFileSystem.simps [simp del] execCmd.simps [simp del]
  instantiate_leaser.simps [simp del] wait_ready.simps [simp del]
  Close.simps [simp del]

section \<open>Properties\<close>

text \<open>
  C1. Validate returns an error exactly for the malformed configurations: an empty
  mount directory, an empty data directory, equal mount and data directories, both
  lease modes, or no lease mode. For every other configuration it returns nil.
\<close>

theorem Validate_fails_iff_malformed:
  "(Validate c \<noteq> None) = malformed (Config c)"
  by (simp add: Validate_def malformed_def)

subsection \<open>Run, step by step\<close>

lemma Run_unfold:
  "Run E s0 =
     and_then (wrap_err ''cannot init store: '' (initStore E s0)) (\<lambda>s1.
     and_then (wrap_err ''cannot init http server: '' (initHTTPServer E s1)) (Run_leaser E))"
  unfolding Run_def Run_leaser_def Run_open_def Run_mount_def Run_wait_def by (rule refl)

lemma and_then_E [consumes 1, case_names stop go]:
  assumes "and_then r k = res"
  obtains (stop) "fst r \<noteq> Return None" "res = r"
        | (go) s where "r = (Return None, s)" "k s = res"
  using assms by (cases r; cases "fst r"; auto simp: and_then_def split: option.splits)

lemma wrap_err_ok: "(wrap_err m r = (Return None, s)) = (r = (Return None, s))"
  by (auto simp: wrap_err_def split: prod.splits outcome.splits option.splits)

lemma execCmd_shape:
  assumes "wrap_err m (execCmd E (c, g, t)) = (r, c', g', t')"
  shows "\<exists>x. t' = t @ x \<and> exec_seg r x"
  using assms
  by (auto simp: execCmd.simps wrap_err_def exec_seg_def split: if_splits sum.splits list.splits option.splits)

lemma Run_wait_shape:
  assumes "Run_wait E (c, g, t) = (r, c', g', t')"
  shows "\<exists>w. t' = t @ w \<and> wait_seg E r w"
proof (cases "select_wait E")
  case CtxDone
  with assms show ?thesis by (auto simp: Run_wait_def and_then_def wait_seg_def wait_ready.simps)
next
  case StoreReady
  with assms have "wrap_err ''cannot exec: '' (execCmd E (c, g, t @ [Call_Serve, Wait_Ready, Recv_Ready])) = (r, c', g', t')"
    by (simp add: Run_wait_def and_then_def wait_ready.simps)
  from execCmd_shape[OF this] StoreReady show ?thesis by (auto simp: wait_seg_def)
next
  case Neither
  with assms show ?thesis by (auto simp: Run_wait_def and_then_def wait_seg_def wait_ready.simps)
qed

lemma Run_mount_shape:
  assumes "Run_mount E (c, g, t) = (r, c', g', t')"
  shows "\<exists>v. t' = t @ v \<and> mount_seg E r v"
proof -
  from assms have a: "and_then (wrap_err ''cannot init file system: '' (initFileSystem E (c, g, t))) (Run_wait E) = (r, c', g', t')"
    by (simp add: Run_mount_def)
  from a show ?thesis
  proof (cases rule: and_then_E)
    case stop
    then show ?thesis
      by (auto simp: initFileSystem.simps wrap_err_def mount_seg_def Let_def split: option.splits)
  next
    case (go s)
    obtain c1 g1 t1 where s: "s = (c1, g1, t1)" by (cases s) auto
    from go(1) have "t1 = t @ [Call_Mount]"
      by (auto simp: initFileSystem.simps s wrap_err_ok Let_def split: option.splits)
    moreover from Run_wait_shape[of E c1 g1 t1] go(2) s obtain w where "t' = t1 @ w" "wait_seg E r w" by auto
    ultimately show ?thesis by (auto simp: mount_seg_def)
  qed
qed

lemma openStore_trace:
  assumes "openStore E (c, g, t) = (r, c1, g1, t1)"
  shows "(t1 = t \<and> r \<noteq> Return None) \<or>
         t1 = t @ [Set_Store_Leaser, Call_Store_Open] \<or>
         t1 = t @ [Set_Store_Leaser, Call_Store_Open, Call_Publish]"
  using assms by (auto simp: openStore.simps Let_def split: option.splits if_splits)

lemma Run_open_shape:
  assumes "Run_open E (c, g, t) = (r, c', g', t')"
  shows "\<exists>u. t' = t @ u \<and> open_seg E r u"
proof -
  from assms have a: "and_then (wrap_err ''cannot open store: '' (openStore E (c, g, t))) (Run_mount E) = (r, c', g', t')"
    by (simp add: Run_open_def)
  from a show ?thesis
  proof (cases rule: and_then_E)
    case stop
    obtain r0 c0 g0 t0 where o: "openStore E (c, g, t) = (r0, c0, g0, t0)"
      by (cases "openStore E (c, g, t)") auto
    from stop o have "r \<noteq> Return None" "t' = t0"
      by (auto simp: wrap_err_def split: outcome.splits option.splits)
    with openStore_trace[OF o] show ?thesis by (auto simp: open_seg_def)
  next
    case (go s)
    obtain c1 g1 t1 where s: "s = (c1, g1, t1)" by (cases s) auto
    from go(1) have o: "openStore E (c, g, t) = (Return None, c1, g1, t1)"
      by (simp add: s wrap_err_ok)
    from openStore_trace[OF o]
    have p: "t1 = t @ [Set_Store_Leaser, Call_Store_Open] \<or>
             t1 = t @ [Set_Store_Leaser, Call_Store_Open, Call_Publish]"
      by auto
    from Run_mount_shape[of E c1 g1 t1] go(2) s obtain v where "t' = t1 @ v" "mount_seg E r v" by auto
    with p show ?thesis unfolding open_seg_def by auto
  qed
qed

lemma instantiate_leaser_trace:
  assumes "instantiate_leaser E (c, g, t) = (r, c1, g1, t1)"
  shows "(t1 = t \<and> r \<noteq> Return None \<and>
            (case Consul (Config c) of
               Some cc \<Rightarrow> (\<forall>h. consul_hostname E cc = Inr h \<longrightarrow> consul_advertiseURL E c cc h = None)
             | None \<Rightarrow> Static (Config c) = None)) \<or>
         (\<exists>cc h a. Consul (Config c) = Some cc \<and> consul_hostname E cc = Inr h \<and>
            consul_advertiseURL E c cc h = Some a \<and>
            t1 = t @ [Call_consul_NewLeaser (Consul_URL cc) h a, Call_consul_Open]) \<or>
         (\<exists>sc. Consul (Config c) = None \<and> Static (Config c) = Some sc \<and> r = Return None \<and>
            t1 = t @ [Call_NewStaticLeaser (Static_Primary sc) (Static_Hostname sc) (Static_AdvertiseURL sc)])"
  using assms
  by (cases "Consul (Config c)")
     (auto simp: instantiate_leaser.simps initConsul.simps wrap_err_def Let_def split: option.splits sum.splits)

lemma Run_leaser_shape:
  assumes "Run_leaser E (c, g, t) = (r, c', g', t')"
  shows "\<exists>l. t' = t @ l \<and> leaser_seg E c r l"
proof -
  from assms have a: "and_then (instantiate_leaser E (c, g, t)) (Run_open E) = (r, c', g', t')"
    by (simp add: Run_leaser_def)
  from a show ?thesis
  proof (cases rule: and_then_E)
    case stop
    then have i: "instantiate_leaser E (c, g, t) = (r, c', g', t')" by simp
    with stop(1) have n: "r \<noteq> Return None" by simp
    from instantiate_leaser_trace[OF i] n show ?thesis
      unfolding leaser_seg_def by auto
  next
    case (go s)
    obtain c1 g1 t1 where s: "s = (c1, g1, t1)" by (cases s) auto
    from Run_open_shape[of E c1 g1 t1] go(2) s obtain u where u: "t' = t1 @ u" "open_seg E r u" by auto
    from instantiate_leaser_trace[of E c g t "Return None" c1 g1 t1] go(1) s u
    show ?thesis unfolding leaser_seg_def by auto
  qed
qed

lemma leaser_seg_cong:
  assumes "Config c2 = Config c" "AdvertiseURLFn c2 = AdvertiseURLFn c" "HTTPServer c2 = HTTPServer c"
  shows "leaser_seg E c2 r l = leaser_seg E c r l"
proof -
  have "consul_advertiseURL E c2 cc h = consul_advertiseURL E c cc h" for cc h
    unfolding consul_advertiseURL_def assms by (rule refl)
  then have adv: "consul_advertiseURL E c2 = consul_advertiseURL E c"
    by (simp add: fun_eq_iff)
  show ?thesis unfolding leaser_seg_def adv assms(1) by (rule refl)
qed

lemma Run_shape:
  assumes "Run E (c, g, t) = (r, c', g', t')"
  shows "\<exists>l. t' = t @ [Call_NewStore (DataDir (Config c)) (Candidate (Config c)), Call_Listen] @ l \<and>
           ((l = [] \<and> r \<noteq> Return None \<and> http_Listen E \<noteq> None) \<or>
            (http_Listen E = None \<and> leaser_seg E (listening c) r l))"
proof -
  obtain c1 where s1: "initStore E (c, g, t) =
      (Return None, c1, g, t @ [Call_NewStore (DataDir (Config c)) (Candidate (Config c))])"
    and c1: "Config c1 = Config c" "AdvertiseURLFn c1 = AdvertiseURLFn c"
    by (simp add: initStore.simps)
  from assms s1 have a: "and_then (wrap_err ''cannot init http server: ''
        (initHTTPServer E (c1, g, t @ [Call_NewStore (DataDir (Config c)) (Candidate (Config c))])))
        (Run_leaser E) = (r, c', g', t')"
    by (simp add: Run_unfold and_then_def wrap_err_def)
  show ?thesis
  proof (cases "http_Listen E")
    case (Some e)
    with a show ?thesis
      by (auto simp: initHTTPServer.simps and_then_def wrap_err_def)
  next
    case None
    let ?c2 = "c1\<lparr>HTTPServer := Some \<lparr>Server_addr = HTTP_Addr (HTTP (Config c1))\<rparr>\<rparr>"
    from a None have "Run_leaser E (?c2, g, t @ [Call_NewStore (DataDir (Config c)) (Candidate (Config c)), Call_Listen]) = (r, c', g', t')"
      by (simp add: initHTTPServer.simps and_then_def wrap_err_def)
    from Run_leaser_shape[OF this] obtain l where
      l: "t' = (t @ [Call_NewStore (DataDir (Config c)) (Candidate (Config c)), Call_Listen]) @ l"
         "leaser_seg E ?c2 r l" by auto
    have "leaser_seg E ?c2 r l = leaser_seg E (listening c) r l"
      by (rule leaser_seg_cong) (simp_all add: c1 listening_def)
    with l None show ?thesis by auto
  qed
qed

lemma open_seg_no_leaser: "open_seg E r u \<Longrightarrow> filter is_NewLeaser u = []"
  unfolding open_seg_def mount_seg_def wait_seg_def exec_seg_def by auto

lemma Run_at_most_one_leaser:
  assumes "Run E (c, g, []) = (r, c', g', t)"
  shows "length (filter is_NewLeaser t) \<le> 1"
proof -
  from Run_shape[OF assms] obtain l where
    l: "t = [Call_NewStore (DataDir (Config c)) (Candidate (Config c)), Call_Listen] @ l"
       "l = [] \<or> leaser_seg E (listening c) r l" by auto
  from l(2) have "length (filter is_NewLeaser l) \<le> 1"
    unfolding leaser_seg_def by (auto simp: open_seg_no_leaser)
  with l(1) show ?thesis by simp
qed

lemma Run_result:
  "Run E (c, g, t) = (result_of (Run E (c, g, t)), command_of (Run E (c, g, t)),
     globals_of (Run E (c, g, t)), trace_of (Run E (c, g, t)))"
  by (simp add: result_of_def command_of_def globals_of_def trace_of_def)

lemma Run_shape_proj:
  "\<exists>l. trace_of (Run E (c, g, t)) =
          t @ [Call_NewStore (DataDir (Config c)) (Candidate (Config c)), Call_Listen] @ l \<and>
        ((l = [] \<and> result_of (Run E (c, g, t)) \<noteq> Return None \<and> http_Listen E \<noteq> None) \<or>
         (http_Listen E = None \<and> leaser_seg E (listening c) (result_of (Run E (c, g, t))) l))"
  using Run_shape[OF Run_result] .









lemma and_then_ok:
  "and_then r k = (Return None, s') \<Longrightarrow> \<exists>s. r = (Return None, s) \<and> k s = (Return None, s')"
  by (auto simp: and_then_def split: prod.splits outcome.splits option.splits)

lemma initStore_ok:
  "initStore E (c, g, t) = (r, c1, g1, t1) \<Longrightarrow>
     Config c1 = Config c \<and> AdvertiseURLFn c1 = AdvertiseURLFn c \<and> Store c1 \<noteq> None"
  by (auto simp: initStore.simps)

lemma initHTTPServer_ok:
  "initHTTPServer E (c, g, t) = (Return None, c1, g1, t1) \<Longrightarrow>
     Config c1 = Config c \<and> AdvertiseURLFn c1 = AdvertiseURLFn c \<and> Store c1 = Store c \<and>
     HTTPServer c1 = Some \<lparr>Server_addr = HTTP_Addr (HTTP (Config c))\<rparr>"
  by (auto simp: initHTTPServer.simps split: option.splits)

lemma instantiate_leaser_ok:
  "instantiate_leaser E (c, g, t) = (Return None, c1, g1, t1) \<Longrightarrow>
     Config c1 = Config c \<and> Store c1 = Store c \<and>
     (case Consul (Config c) of
        Some cc \<Rightarrow>
          (\<exists>h a. consul_hostname E cc = Inr h \<and> consul_advertiseURL E c cc h = Some a \<and>
             Leaser c1 = Some (ConsulL (consul_overrides cc (consul_NewLeaser E (Consul_URL cc) h a))))
      | None \<Rightarrow>
          (\<exists>sc. Static (Config c) = Some sc \<and>
             Leaser c1 = Some (StaticL (litefs_NewStaticLeaser E
               (Static_Primary sc) (Static_Hostname sc) (Static_AdvertiseURL sc)))))"
  by (cases "Consul (Config c)")
     (auto simp: instantiate_leaser.simps initConsul.simps wrap_err_def Let_def
           split: option.splits sum.splits)

lemma openStore_ok:
  "openStore E (c, g, t) = (Return None, c1, g1, t1) \<Longrightarrow>
     Config c1 = Config c \<and> Leaser c1 = Leaser c \<and>
     (\<exists>st. Store c1 = Some st \<and> Store_Leaser st = Leaser c)"
  by (auto simp: openStore.simps Let_def split: option.splits if_splits)

lemma initFileSystem_ok:
  "initFileSystem E (c, g, t) = (Return None, c1, g1, t1) \<Longrightarrow>
     Config c1 = Config c \<and> Leaser c1 = Leaser c \<and>
     (\<forall>st. Store c = Some st \<longrightarrow> Store c1 = Some (st\<lparr>Invalidator := Some \<lparr>FileSystem_path = MountDir (Config c)\<rparr>\<rparr>))"
  by (auto simp: initFileSystem.simps Let_def split: option.splits if_splits)

lemma wait_ready_ok:
  "wait_ready E (c, g, t) = (Return None, c1, g1, t1) \<Longrightarrow> c1 = c"
  by (auto simp: wait_ready.simps Let_def split: select_case.splits)

lemma execCmd_ok:
  "execCmd E (c, g, t) = (Return None, c1, g1, t1) \<Longrightarrow>
     Config c1 = Config c \<and> Leaser c1 = Leaser c \<and> Store c1 = Store c \<and>
     (if Exec (Config c) = [] then t1 = t \<and> cmd c1 = cmd c
      else \<exists>a as. shellwords_Parse E (Exec (Config c)) = Inr (a # as) \<and>
             cmd c1 = Some \<lparr>Cmd_Path = a, Cmd_Args = as, Cmd_running = True\<rparr> \<and>
             t1 = t @ [Call_cmd_Start, Cmd_Started])"
  by (auto simp: execCmd.simps split: if_splits sum.splits list.splits option.splits)

lemma consul_advertiseURL_cong:
  assumes "AdvertiseURLFn c2 = AdvertiseURLFn c" "HTTPServer c2 = HTTPServer c"
  shows "consul_advertiseURL E c2 cc h = consul_advertiseURL E c cc h"
  unfolding consul_advertiseURL_def assms by (rule refl)

lemma Run_ok_state:
  assumes "Run E (c, g, t) = (Return None, c', g', t')"
  shows "Config c' = Config c \<and>
     (case Consul (Config c) of
        Some cc \<Rightarrow>
          (\<exists>h a. consul_hostname E cc = Inr h \<and> consul_advertiseURL E (listening c) cc h = Some a \<and>
             Leaser c' = Some (ConsulL (consul_overrides cc (consul_NewLeaser E (Consul_URL cc) h a))))
      | None \<Rightarrow>
          (\<exists>sc. Static (Config c) = Some sc \<and>
             Leaser c' = Some (StaticL (litefs_NewStaticLeaser E
               (Static_Primary sc) (Static_Hostname sc) (Static_AdvertiseURL sc))))) \<and>
     (\<exists>st. Store c' = Some st \<and> Store_Leaser st = Leaser c') \<and>
     (Exec (Config c) \<noteq> [] \<longrightarrow>
        (\<exists>a as. shellwords_Parse E (Exec (Config c)) = Inr (a # as) \<and>
           cmd c' = Some \<lparr>Cmd_Path = a, Cmd_Args = as, Cmd_running = True\<rparr> \<and>
           (\<exists>t6. t' = t6 @ [Call_cmd_Start, Cmd_Started])))"
proof -
  from assms[unfolded Run_def] obtain c1 g1 t1 c2 g2 t2 c3 g3 t3 c4 g4 t4 c5 g5 t5 c6 g6 t6 where
    s1: "initStore E (c, g, t) = (Return None, c1, g1, t1)" and
    s2: "initHTTPServer E (c1, g1, t1) = (Return None, c2, g2, t2)" and
    s3: "instantiate_leaser E (c2, g2, t2) = (Return None, c3, g3, t3)" and
    s4: "openStore E (c3, g3, t3) = (Return None, c4, g4, t4)" and
    s5: "initFileSystem E (c4, g4, t4) = (Return None, c5, g5, t5)" and
    s6: "wait_ready E (c5, g5, t5) = (Return None, c6, g6, t6)" and
    r6: "execCmd E (c6, g6, t6) = (Return None, c', g', t')"
    by (auto dest!: and_then_ok simp: wrap_err_ok)
  note f1 = initStore_ok[OF s1]
  note f2 = initHTTPServer_ok[OF s2]
  note f3 = instantiate_leaser_ok[OF s3]
  note f4 = openStore_ok[OF s4]
  note f5 = initFileSystem_ok[OF s5]
  note f6 = wait_ready_ok[OF s6]
  note f7 = execCmd_ok[OF r6]
  have cfg: "Config c' = Config c" "Config c6 = Config c" "Config c2 = Config c"
    using f1 f2 f3 f4 f5 f6 f7 by simp_all
  have adv: "consul_advertiseURL E c2 cc h = consul_advertiseURL E (listening c) cc h" for cc h
    by (rule consul_advertiseURL_cong) (simp_all add: f1 f2 listening_def)
  have lz: "Leaser c' = Leaser c3" using f4 f5 f6 f7 by simp
  have st: "\<exists>st. Store c' = Some st \<and> Store_Leaser st = Leaser c'"
    using f4 f5 f6 f7 by auto
  have ex: "Exec (Config c) \<noteq> [] \<longrightarrow>
        (\<exists>a as. shellwords_Parse E (Exec (Config c)) = Inr (a # as) \<and>
           cmd c' = Some \<lparr>Cmd_Path = a, Cmd_Args = as, Cmd_running = True\<rparr> \<and>
           (\<exists>t6. t' = t6 @ [Call_cmd_Start, Cmd_Started]))"
    using f7 cfg by auto
  from f3 have "case Consul (Config c) of
        Some cc \<Rightarrow>
          (\<exists>h a. consul_hostname E cc = Inr h \<and> consul_advertiseURL E (listening c) cc h = Some a \<and>
             Leaser c' = Some (ConsulL (consul_overrides cc (consul_NewLeaser E (Consul_URL cc) h a))))
      | None \<Rightarrow>
          (\<exists>sc. Static (Config c) = Some sc \<and>
             Leaser c' = Some (StaticL (litefs_NewStaticLeaser E
               (Static_Primary sc) (Static_Hostname sc) (Static_AdvertiseURL sc))))"
    unfolding cfg lz adv by simp
  with cfg st ex show ?thesis by simp
qed

subsection \<open>Example runs\<close>

lemmas run_simps =
  Run_def and_then_def wrap_err_def initStore.simps initHTTPServer.simps initConsul.simps
  openStore.simps initFileSystem.simps execCmd.simps instantiate_leaser.simps wait_ready.simps
  consul_hostname_def consul_advertiseURL_def consul_overrides_def expvar_Publish_def
  result_of_def command_of_def globals_of_def trace_of_def Let_def

lemmas example_simps =
  example_env_def static_config_def consul_config_def NewMountCommand_def globals0_def
  cancelled_env_def no_hostname_env_def failing_close_env_def failing_open_env_def
  stored_command_def injected_command_def bad_home_config_env_def race_env_def
  no_listen_env_def

lemma Sprintf_d_example: "Sprintf_d 20202 = ''20202''"
  by (simp add: Sprintf_d_def decimal.simps digit_def)

lemma static_run_trace:
  "trace_of (Run example_env (NewMountCommand static_config, globals0, [])) =
     [Call_NewStore ''/var/lib/litefs'' True, Call_Listen,
      Call_NewStaticLeaser True ''node1'' ''http://node1:20202'', Set_Store_Leaser,
      Call_Store_Open, Call_Publish, Call_Mount, Call_Serve, Wait_Ready, Recv_Ready,
      Call_cmd_Start, Cmd_Started]"
  by (simp add: run_simps example_simps)

lemma static_run_result:
  "result_of (Run example_env (NewMountCommand static_config, globals0, [])) = Return None"
  by (simp add: run_simps example_simps)

lemma consul_run_trace:
  "trace_of (Run example_env (NewMountCommand consul_config, globals0, [])) =
     [Call_NewStore ''/var/lib/litefs'' True, Call_Listen,
      Call_consul_NewLeaser ''http://localhost:8500'' ''node1'' ''http://node1:20202'',
      Call_consul_Open, Set_Store_Leaser, Call_Store_Open, Call_Publish, Call_Mount,
      Call_Serve, Wait_Ready, Recv_Ready, Call_cmd_Start, Cmd_Started]"
  by (simp add: run_simps example_simps Sprintf_d_example)

lemma consul_run_result:
  "result_of (Run example_env (NewMountCommand consul_config, globals0, [])) = Return None"
  by (simp add: run_simps example_simps Sprintf_d_example)



lemma no_hostname_run_trace:
  "trace_of (Run no_hostname_env (NewMountCommand consul_config, globals0, [])) =
     [Call_NewStore ''/var/lib/litefs'' True, Call_Listen]"
  by (simp add: run_simps example_simps)

lemma no_hostname_run_result:
  "result_of (Run no_hostname_env (NewMountCommand consul_config, globals0, [])) =
     Return (Some (Wrapf ''cannot init consul: '' (Foreign ''hostname unavailable'')))"
  by (simp add: run_simps example_simps)



lemma advertiseURL_listening: "consul_advertiseURL E (listening c) cc h \<noteq> None"
  by (simp add: consul_advertiseURL_def listening_def Let_def)

lemma Validate_examples:
  "Validate (NewMountCommand static_config) = None"
  "Validate (NewMountCommand consul_config) = None"
  by (simp_all add: Validate_def NewMountCommand_def static_config_def consul_config_def)

lemma static_run_leaser:
  "Leaser (command_of (Run example_env (NewMountCommand static_config, globals0, []))) =
     Some (StaticL \<lparr>StaticLeaser_isPrimary = True, StaticLeaser_hostname = ''node1'',
                     StaticLeaser_advertiseURL = ''http://node1:20202''\<rparr>)"
  by (simp add: run_simps example_simps)

lemma no_hostname_run_leaser:
  "Leaser (command_of (Run no_hostname_env (NewMountCommand consul_config, globals0, []))) = None"
  by (simp add: run_simps example_simps)

lemma example_env_listens: "http_Listen example_env = None"
  by (simp add: example_env_def)

lemma static_config_modes:
  "Consul (Config (NewMountCommand static_config)) = None"
  "Static (Config (NewMountCommand static_config)) =
     Some \<lparr>Static_Primary = True, Static_Hostname = ''node1'',
            Static_AdvertiseURL = ''http://node1:20202''\<rparr>"
  by (simp_all add: NewMountCommand_def static_config_def)


subsection \<open>The claims about Run\<close>









lemma Run_listen_fails:
  assumes "http_Listen E = Some e"
  shows "result_of (Run E (c, g, t)) =
      Return (Some (Wrapf ''cannot init http server: '' (Wrapf ''cannot open http server: '' e)))"
    "trace_of (Run E (c, g, t)) =
      t @ [Call_NewStore (DataDir (Config c)) (Candidate (Config c)), Call_Listen]"
    "Leaser (command_of (Run E (c, g, t))) = Leaser c"
  using assms
  by (simp_all add: Run_unfold and_then_def wrap_err_def initStore.simps initHTTPServer.simps
        result_of_def trace_of_def command_of_def Let_def)

lemma Run_hostname_fails:
  assumes "http_Listen E = None" "Consul (Config c) = Some cc" "consul_hostname E cc = Inl e"
  shows "result_of (Run E (c, g, t)) = Return (Some (Wrapf ''cannot init consul: '' e))"
    "trace_of (Run E (c, g, t)) =
      t @ [Call_NewStore (DataDir (Config c)) (Candidate (Config c)), Call_Listen]"
    "Leaser (command_of (Run E (c, g, t))) = Leaser c"
  using assms
  by (simp_all add: Run_unfold Run_leaser_def and_then_def wrap_err_def initStore.simps
        initHTTPServer.simps instantiate_leaser.simps initConsul.simps
        result_of_def trace_of_def command_of_def Let_def)

lemma no_listen_run:
  "trace_of (Run no_listen_env (NewMountCommand static_config, globals0, [])) =
     [Call_NewStore ''/var/lib/litefs'' True, Call_Listen]"
  "result_of (Run no_listen_env (NewMountCommand static_config, globals0, [])) =
     Return (Some (Wrapf ''cannot init http server: ''
       (Wrapf ''cannot open http server: '' (Foreign ''address already in use''))))"
  "Leaser (command_of (Run no_listen_env (NewMountCommand static_config, globals0, []))) = None"
  by (simp_all add: run_simps example_simps)

lemma no_listen_env_example:
  "http_Listen no_listen_env = Some (Foreign ''address already in use'')"
  by (simp add: no_listen_env_def)

lemma NewMountCommand_Leaser: "Leaser (NewMountCommand cfg) = None"
  by (simp add: NewMountCommand_def)

text \<open>
  C2 (as amended). Run chooses the Leaser variant by the presence of the consul section
  alone, and instantiates at most one variant in a run. In a run whose HTTP server
  listens: with a consul section, and the hostname known, Run constructs one consul
  leaser from the URL, the hostname and the advertise URL, then opens it, and no static
  leaser; with no consul section, a configuration accepted by Validate has a static
  section, and Run constructs one static leaser from its primary flag, hostname and
  advertise URL, and no consul leaser. A run that returns nil has that leaser in
  \<open>c.Leaser\<close>. A run whose HTTP server cannot listen returns the error of Listen,
  wrapped, and a run whose HTTP server listens, with a consul section whose hostname
  lookup fails, returns the error of the lookup, wrapped; both construct no leaser and
  leave \<open>c.Leaser\<close> as it was.
\<close>

theorem Run_instantiates_leaser:
  assumes "Validate c = None"
  shows "length (filter is_NewLeaser (trace_of (Run E (c, g, [])))) \<le> 1 \<and>
     (http_Listen E = None \<longrightarrow>
        (case Consul (Config c) of
           Some cc \<Rightarrow>
             (\<forall>h. consul_hostname E cc = Inr h \<longrightarrow>
                (\<exists>a. consul_advertiseURL E (listening c) cc h = Some a \<and>
                   filter is_NewLeaser (trace_of (Run E (c, g, []))) =
                     [Call_consul_NewLeaser (Consul_URL cc) h a] \<and>
                   in_order [Call_consul_NewLeaser (Consul_URL cc) h a, Call_consul_Open]
                     (trace_of (Run E (c, g, [])))))
         | None \<Rightarrow>
             (\<exists>sc. Static (Config c) = Some sc \<and>
                filter is_NewLeaser (trace_of (Run E (c, g, []))) =
                  [Call_NewStaticLeaser (Static_Primary sc) (Static_Hostname sc)
                     (Static_AdvertiseURL sc)]))) \<and>
     (result_of (Run E (c, g, [])) = Return None \<longrightarrow>
        (case Consul (Config c) of
           Some cc \<Rightarrow>
             (\<exists>h a. consul_hostname E cc = Inr h \<and>
                consul_advertiseURL E (listening c) cc h = Some a \<and>
                Leaser (command_of (Run E (c, g, []))) =
                  Some (ConsulL (consul_overrides cc (consul_NewLeaser E (Consul_URL cc) h a))))
         | None \<Rightarrow>
             (\<exists>sc. Static (Config c) = Some sc \<and>
                Leaser (command_of (Run E (c, g, []))) =
                  Some (StaticL (litefs_NewStaticLeaser E
                    (Static_Primary sc) (Static_Hostname sc) (Static_AdvertiseURL sc)))))) \<and>
     (\<forall>e. http_Listen E = Some e \<longrightarrow>
        filter is_NewLeaser (trace_of (Run E (c, g, []))) = [] \<and>
        Leaser (command_of (Run E (c, g, []))) = Leaser c \<and>
        result_of (Run E (c, g, [])) =
          Return (Some (Wrapf ''cannot init http server: ''
            (Wrapf ''cannot open http server: '' e)))) \<and>
     (\<forall>cc e. http_Listen E = None \<and> Consul (Config c) = Some cc \<and>
          consul_hostname E cc = Inl e \<longrightarrow>
        filter is_NewLeaser (trace_of (Run E (c, g, []))) = [] \<and>
        Leaser (command_of (Run E (c, g, []))) = Leaser c \<and>
        result_of (Run E (c, g, [])) = Return (Some (Wrapf ''cannot init consul: '' e)))"
proof -
  let ?R = "Run E (c, g, [])"
  from Run_result[of E c g "[]"] have one: "length (filter is_NewLeaser (trace_of ?R)) \<le> 1"
    by (rule Run_at_most_one_leaser)
  have nol: "filter is_NewLeaser (trace_of ?R) = [] \<and>
      Leaser (command_of ?R) = Leaser c \<and>
      result_of ?R = Return (Some (Wrapf ''cannot init http server: ''
        (Wrapf ''cannot open http server: '' e)))"
    if "http_Listen E = Some e" for e
    using Run_listen_fails[OF that, of c g "[]"] by simp
  have noh: "filter is_NewLeaser (trace_of ?R) = [] \<and>
      Leaser (command_of ?R) = Leaser c \<and>
      result_of ?R = Return (Some (Wrapf ''cannot init consul: '' e))"
    if "http_Listen E = None" "Consul (Config c) = Some cc" "consul_hostname E cc = Inl e"
    for cc e
    using Run_hostname_fails[OF that, of g "[]"] by simp
  have sel: "case Consul (Config c) of
           Some cc \<Rightarrow>
             (\<forall>h. consul_hostname E cc = Inr h \<longrightarrow>
                (\<exists>a. consul_advertiseURL E (listening c) cc h = Some a \<and>
                   filter is_NewLeaser (trace_of ?R) =
                     [Call_consul_NewLeaser (Consul_URL cc) h a] \<and>
                   in_order [Call_consul_NewLeaser (Consul_URL cc) h a, Call_consul_Open]
                     (trace_of ?R)))
         | None \<Rightarrow>
             (\<exists>sc. Static (Config c) = Some sc \<and>
                filter is_NewLeaser (trace_of ?R) =
                  [Call_NewStaticLeaser (Static_Primary sc) (Static_Hostname sc)
                     (Static_AdvertiseURL sc)])"
    if listen: "http_Listen E = None"
  proof -
    from Run_shape_proj[of E c g "[]"] listen obtain l where
      t: "trace_of ?R = [Call_NewStore (DataDir (Config c)) (Candidate (Config c)), Call_Listen] @ l"
      and l: "leaser_seg E (listening c) (result_of ?R) l"
      by auto
    have cfg: "Config (listening c) = Config c" by (simp add: listening_def)
    show ?thesis
    proof (cases "Consul (Config c)")
      case None
      with assms obtain sc where sc: "Static (Config c) = Some sc"
        by (auto simp: Validate_def split: if_splits)
      from l None sc show ?thesis
        unfolding leaser_seg_def cfg t
        by (auto simp: open_seg_no_leaser)
    next
      case (Some cc)
      from l Some show ?thesis
        unfolding leaser_seg_def cfg t
        using advertiseURL_listening[of E c cc]
        by (auto simp: open_seg_no_leaser)
    qed
  qed
  have ok: "case Consul (Config c) of
           Some cc \<Rightarrow>
             (\<exists>h a. consul_hostname E cc = Inr h \<and>
                consul_advertiseURL E (listening c) cc h = Some a \<and>
                Leaser (command_of ?R) =
                  Some (ConsulL (consul_overrides cc (consul_NewLeaser E (Consul_URL cc) h a))))
         | None \<Rightarrow>
             (\<exists>sc. Static (Config c) = Some sc \<and>
                Leaser (command_of ?R) =
                  Some (StaticL (litefs_NewStaticLeaser E
                    (Static_Primary sc) (Static_Hostname sc) (Static_AdvertiseURL sc))))"
    if "result_of ?R = Return None"
  proof -
    from that have "Run E (c, g, []) = (Return None, command_of ?R, globals_of ?R, trace_of ?R)"
      using Run_result[of E c g "[]"] by simp
    from Run_ok_state[OF this] show ?thesis by simp
  qed
  from one sel ok nol noh show ?thesis by blast
qed

theorem Run_instantiates_leaser_witness:
  "Validate (NewMountCommand static_config) = None \<and>
   http_Listen example_env = None \<and>
   filter is_NewLeaser (trace_of (Run example_env (NewMountCommand static_config, globals0, []))) =
     [Call_NewStaticLeaser True ''node1'' ''http://node1:20202''] \<and>
   Leaser (command_of (Run example_env (NewMountCommand static_config, globals0, []))) =
     Some (StaticL \<lparr>StaticLeaser_isPrimary = True, StaticLeaser_hostname = ''node1'',
                     StaticLeaser_advertiseURL = ''http://node1:20202''\<rparr>) \<and>
   http_Listen no_listen_env = Some (Foreign ''address already in use'') \<and>
   filter is_NewLeaser
     (trace_of (Run no_listen_env (NewMountCommand static_config, globals0, []))) = [] \<and>
   Leaser (command_of (Run no_listen_env (NewMountCommand static_config, globals0, []))) = None \<and>
   result_of (Run no_listen_env (NewMountCommand static_config, globals0, [])) =
     Return (Some (Wrapf ''cannot init http server: ''
       (Wrapf ''cannot open http server: '' (Foreign ''address already in use''))))"
  using Run_instantiates_leaser[OF Validate_examples(1), of example_env globals0]
    Run_instantiates_leaser[OF Validate_examples(1), of no_listen_env globals0]
  unfolding static_run_trace static_run_result static_run_leaser static_config_modes
    no_listen_run NewMountCommand_Leaser
  by (simp add: Validate_examples example_env_listens no_listen_env_example)

text \<open>
  The claim as first stated asks for exactly one variant in every run. With a consul
  section, no configured hostname and a failing \<open>os.Hostname\<close>, Run returns an error
  and no leaser of either variant has been constructed.
\<close>

theorem Run_no_leaser_counterexample:
  "Validate (NewMountCommand consul_config) = None \<and>
   filter is_NewLeaser
     (trace_of (Run no_hostname_env (NewMountCommand consul_config, globals0, []))) = [] \<and>
   Leaser (command_of (Run no_hostname_env (NewMountCommand consul_config, globals0, []))) = None \<and>
   result_of (Run no_hostname_env (NewMountCommand consul_config, globals0, [])) =
     Return (Some (Wrapf ''cannot init consul: '' (Foreign ''hostname unavailable'')))"
  by (simp add: Validate_examples no_hostname_run_trace no_hostname_run_leaser
        no_hostname_run_result)

text \<open>
  C6. In every run that returns nil, each startup call is made once, and in this order:
  the Leaser is instantiated, it is assigned to the Store (\<open>c.Store.Leaser = c.Leaser\<close>),
  the Store is opened, the file system is mounted, the HTTP server serves, and Run
  waits for readiness. At the end the Store holds the command's Leaser.
\<close>

theorem Run_startup_order:
  assumes "result_of (Run E (c, g, [])) = Return None"
  shows "distinct (trace_of (Run E (c, g, []))) \<and>
     length (filter is_NewLeaser (trace_of (Run E (c, g, [])))) = 1 \<and>
     in_order (filter is_NewLeaser (trace_of (Run E (c, g, []))) @
         [Set_Store_Leaser, Call_Store_Open, Call_Mount, Call_Serve, Wait_Ready])
       (trace_of (Run E (c, g, []))) \<and>
     (\<exists>st. Store (command_of (Run E (c, g, []))) = Some st \<and>
        Store_Leaser st = Leaser (command_of (Run E (c, g, []))) \<and>
        Leaser (command_of (Run E (c, g, []))) \<noteq> None)"
proof -
  let ?t = "trace_of (Run E (c, g, []))"
  from Run_shape_proj[of E c g "[]"] assms
  have "distinct ?t \<and> length (filter is_NewLeaser ?t) = 1 \<and>
     in_order (filter is_NewLeaser ?t @
         [Set_Store_Leaser, Call_Store_Open, Call_Mount, Call_Serve, Wait_Ready]) ?t"
    unfolding leaser_seg_def open_seg_def mount_seg_def wait_seg_def exec_seg_def
    by (elim disjE exE conjE) simp_all
  moreover
  from assms have "Run E (c, g, []) = (Return None, command_of (Run E (c, g, [])),
      globals_of (Run E (c, g, [])), trace_of (Run E (c, g, [])))"
    using Run_result[of E c g "[]"] by simp
  from Run_ok_state[OF this]
  have "\<exists>st. Store (command_of (Run E (c, g, []))) = Some st \<and>
        Store_Leaser st = Leaser (command_of (Run E (c, g, []))) \<and>
        Leaser (command_of (Run E (c, g, []))) \<noteq> None"
    by (auto split: option.splits)
  ultimately show ?thesis by simp
qed

theorem Run_startup_order_witness:
  "result_of (Run example_env (NewMountCommand consul_config, globals0, [])) = Return None \<and>
   filter is_NewLeaser (trace_of (Run example_env (NewMountCommand consul_config, globals0, []))) =
     [Call_consul_NewLeaser ''http://localhost:8500'' ''node1'' ''http://node1:20202''] \<and>
   in_order
     [Call_consul_NewLeaser ''http://localhost:8500'' ''node1'' ''http://node1:20202'',
      Set_Store_Leaser, Call_Store_Open, Call_Mount, Call_Serve, Wait_Ready]
     (trace_of (Run example_env (NewMountCommand consul_config, globals0, []))) \<and>
   distinct (trace_of (Run example_env (NewMountCommand consul_config, globals0, [])))"
  using Run_startup_order[of example_env "NewMountCommand consul_config" globals0]
  unfolding consul_run_trace consul_run_result
  by simp

subsection \<open>Close and the shutdown paths\<close>

lemma Close_eq:
  "Close E (c, g, t) =
     (first_error [(HTTPServer c \<noteq> None, http_Close E),
                   (FileSystem c \<noteq> None, fuse_Unmount E),
                   (Store c \<noteq> None, Store_Close E)],
      c, g,
      t @ (if HTTPServer c \<noteq> None then [Call_HTTP_Close] else [])
        @ (if FileSystem c \<noteq> None then [Call_Unmount] else [])
        @ (if Store c \<noteq> None then [Call_Store_Close] else []))"
  by (auto simp: Close.simps split: option.splits)

text \<open>
  C9. Close makes its three steps in a fixed order: it closes the HTTP server, unmounts
  the file system and closes the Store, leaving out only a component that is nil. Every
  later step is made whatever the earlier ones returned, and the result is the first
  error that is not nil (nil when every step succeeds or nothing was initialised).
  Close changes neither the command nor the process state.
\<close>

theorem Close_steps:
  "Close E (c, g, t) =
     (first_error [(HTTPServer c \<noteq> None, http_Close E),
                   (FileSystem c \<noteq> None, fuse_Unmount E),
                   (Store c \<noteq> None, Store_Close E)],
      c, g,
      t @ (if HTTPServer c \<noteq> None then [Call_HTTP_Close] else [])
        @ (if FileSystem c \<noteq> None then [Call_Unmount] else [])
        @ (if Store c \<noteq> None then [Call_Store_Close] else []))"
  by (rule Close_eq)

lemma NewMountCommand_parts:
  "cmd (NewMountCommand cfg) = None"
  "Config (NewMountCommand cfg) = cfg"
  "Store (NewMountCommand cfg) = None"
  "Leaser (NewMountCommand cfg) = None"
  "FileSystem (NewMountCommand cfg) = None"
  "HTTPServer (NewMountCommand cfg) = None"
  "AdvertiseURLFn (NewMountCommand cfg) = None"
  by (simp_all add: NewMountCommand_def)

lemma running_state_eq:
  "running_state =
     (command_of (Run example_env (NewMountCommand static_config, globals0, [])),
      globals_of (Run example_env (NewMountCommand static_config, globals0, [])),
      trace_of (Run example_env (NewMountCommand static_config, globals0, [])))"
  by (simp add: running_state_def command_of_def globals_of_def trace_of_def)

lemma running_command_parts:
  "HTTPServer (command_of (Run example_env (NewMountCommand static_config, globals0, []))) =
     Some \<lparr>Server_addr = '':20202''\<rparr>"
  "FileSystem (command_of (Run example_env (NewMountCommand static_config, globals0, []))) =
     Some \<lparr>FileSystem_path = ''/litefs''\<rparr>"
  "Store (command_of (Run example_env (NewMountCommand static_config, globals0, []))) \<noteq> None"
  "cmd (command_of (Run example_env (NewMountCommand static_config, globals0, []))) =
     Some \<lparr>Cmd_Path = ''myapp'', Cmd_Args = [], Cmd_running = True\<rparr>"
  by (simp_all add: run_simps example_simps)

lemma failing_close_env_results:
  "http_Close failing_close_env = Some (Foreign ''http close failed'')"
  "fuse_Unmount failing_close_env = None"
  "Store_Close failing_close_env = Some (Foreign ''store close failed'')"
  by (simp_all add: failing_close_env_def example_env_def)

theorem Close_steps_witness:
  "fst (Close failing_close_env running_state) = Some (Foreign ''http close failed'') \<and>
   snd (snd (snd (Close failing_close_env running_state))) =
     trace_of (Run example_env (NewMountCommand static_config, globals0, [])) @
     [Call_HTTP_Close, Call_Unmount, Call_Store_Close] \<and>
   fst (Close example_env (NewMountCommand static_config, globals0, [])) = None \<and>
   snd (snd (snd (Close example_env (NewMountCommand static_config, globals0, [])))) = []"
  unfolding running_state_eq
    Close_steps[of failing_close_env
      "command_of (Run example_env (NewMountCommand static_config, globals0, []))"]
    Close_steps[of example_env "NewMountCommand static_config"]
  by (simp add: running_command_parts failing_close_env_results NewMountCommand_parts)

lemma only_after_first: "b \<notin> set xs \<Longrightarrow> only_after a b (xs @ a # ys)"
  by (induction xs) auto

lemma ctx_cancel_trace:
  "\<exists>evs. snd (snd (ctx_cancel (c, g, t))) = t @ evs"
  by (auto split: option.splits)

lemma Close_trace:
  "\<exists>evs. snd (snd (snd (Close E (c, g, t)))) = t @ evs \<and> Cmd_Killed \<notin> set evs"
  unfolding Close_eq by simp

lemma shutdown_trace:
  "\<exists>evs. snd (snd (shutdown E as (c, g, t))) = t @ evs"
proof (induction as arbitrary: c g t)
  case Nil
  show ?case by simp
next
  case (Cons a as)
  show ?case
  proof (cases a)
    case CancelCtx
    obtain c1 g1 t1 where s: "ctx_cancel (c, g, t) = (c1, g1, t1)"
      by (cases "ctx_cancel (c, g, t)") auto
    with ctx_cancel_trace[of c g t] obtain e1 where "t1 = t @ e1" by auto
    with Cons.IH[of c1 g1 t1] CancelCtx s show ?thesis by auto
  next
    case CallClose
    obtain c1 g1 t1 where s: "snd (Close E (c, g, t)) = (c1, g1, t1)"
      by (cases "snd (Close E (c, g, t))") auto
    with Close_trace[of E c g t] obtain e1 where "t1 = t @ e1" by auto
    with Cons.IH[of c1 g1 t1] CallClose s show ?thesis by auto
  qed
qed

lemma shutdown_without_cancel:
  "CancelCtx \<notin> set as \<Longrightarrow>
   \<exists>evs. snd (snd (shutdown E as (c, g, t))) = t @ evs \<and> Cmd_Killed \<notin> set evs"
proof (induction as arbitrary: c g t)
  case Nil
  show ?case by simp
next
  case (Cons a as)
  then have a: "a = CallClose" and as: "CancelCtx \<notin> set as"
    by (cases a; simp)+
  obtain c1 g1 t1 where s: "snd (Close E (c, g, t)) = (c1, g1, t1)"
    by (cases "snd (Close E (c, g, t))") auto
  with Close_trace[of E c g t] obtain e1 where e1: "t1 = t @ e1" "Cmd_Killed \<notin> set e1" by auto
  from Cons.IH[OF as, of c1 g1 t1] obtain e2 where
    "snd (snd (shutdown E as (c1, g1, t1))) = t1 @ e2" "Cmd_Killed \<notin> set e2" by auto
  with e1 a s show ?case by auto
qed

text \<open>
  C4 (as amended). Close never terminates the subprocess: it leaves \<open>c.cmd\<close> as it is
  and makes no kill, and so does every shutdown path without a cancellation. The
  subprocess is bound to the context of Run, and a cancellation of that context kills it
  while it runs, whatever the state of the Store. On a shutdown path that calls Close
  first, the Store is closed before the subprocess is killed.
\<close>

theorem Close_leaves_subprocess:
  "cmd (fst (snd (Close E (c, g, t)))) = cmd c \<and>
   (\<exists>evs. snd (snd (snd (Close E (c, g, t)))) = t @ evs \<and> Cmd_Killed \<notin> set evs) \<and>
   (CancelCtx \<notin> set as \<longrightarrow>
      (\<exists>evs. snd (snd (shutdown E as (c, g, t))) = t @ evs \<and> Cmd_Killed \<notin> set evs)) \<and>
   (Store c \<noteq> None \<and> Cmd_Killed \<notin> set t \<longrightarrow>
      only_after Call_Store_Close Cmd_Killed (snd (snd (shutdown E (CallClose # as) (c, g, t))))) \<and>
   (\<forall>p. cmd c = Some p \<and> Cmd_running p \<longrightarrow>
      snd (snd (ctx_cancel (c, g, t))) = t @ [Cmd_Killed])"
proof -
  have 1: "cmd (fst (snd (Close E (c, g, t)))) = cmd c"
    unfolding Close_eq by simp
  have 4: "only_after Call_Store_Close Cmd_Killed (snd (snd (shutdown E (CallClose # as) (c, g, t))))"
    if st: "Store c \<noteq> None" and nk: "Cmd_Killed \<notin> set t"
  proof -
    let ?pre = "t @ (if HTTPServer c \<noteq> None then [Call_HTTP_Close] else [])
        @ (if FileSystem c \<noteq> None then [Call_Unmount] else [])"
    from st have cl: "snd (Close E (c, g, t)) = (c, g, ?pre @ [Call_Store_Close])"
      unfolding Close_eq by simp
    from shutdown_trace[of E as c g "?pre @ [Call_Store_Close]"] obtain evs where
      "snd (snd (shutdown E as (c, g, ?pre @ [Call_Store_Close]))) = (?pre @ [Call_Store_Close]) @ evs"
      by blast
    then have eq: "snd (snd (shutdown E (CallClose # as) (c, g, t))) = ?pre @ Call_Store_Close # evs"
      by (simp add: cl)
    have nk': "Cmd_Killed \<notin> set ?pre" using nk by simp
    show ?thesis unfolding eq by (rule only_after_first[OF nk'])
  qed
  have 5: "\<forall>p. cmd c = Some p \<and> Cmd_running p \<longrightarrow>
      snd (snd (ctx_cancel (c, g, t))) = t @ [Cmd_Killed]"
    by auto
  from 1 Close_trace[of E c g t] shutdown_without_cancel[of as E c g t] 4 5
  show ?thesis by blast
qed

lemma close_then_cancel:
  "snd (snd (shutdown example_env [CallClose, CancelCtx] running_state)) =
     trace_of (Run example_env (NewMountCommand static_config, globals0, [])) @
     [Call_HTTP_Close, Call_Unmount, Call_Store_Close, Cmd_Killed]"
  unfolding running_state_eq
  by (simp add: Close_eq running_command_parts)

lemma cancel_then_close:
  "snd (snd (shutdown example_env [CancelCtx, CallClose] running_state)) =
     trace_of (Run example_env (NewMountCommand static_config, globals0, [])) @
     [Cmd_Killed, Call_HTTP_Close, Call_Unmount, Call_Store_Close]"
  unfolding running_state_eq
  by (simp add: Close_eq running_command_parts)

theorem Close_leaves_subprocess_witness:
  "Store (fst running_state) \<noteq> None \<and>
   Cmd_Killed \<notin> set (snd (snd running_state)) \<and>
   only_after Call_Store_Close Cmd_Killed
     (snd (snd (shutdown example_env [CallClose, CancelCtx] running_state))) \<and>
   snd (snd (shutdown example_env [CallClose, CancelCtx] running_state)) =
     snd (snd running_state) @ [Call_HTTP_Close, Call_Unmount, Call_Store_Close, Cmd_Killed]"
  using Close_leaves_subprocess[of example_env
      "command_of (Run example_env (NewMountCommand static_config, globals0, []))"
      "globals_of (Run example_env (NewMountCommand static_config, globals0, []))"
      "trace_of (Run example_env (NewMountCommand static_config, globals0, []))"
      "[CancelCtx]"]
  unfolding close_then_cancel running_state_eq[symmetric]
  unfolding running_state_eq static_run_trace
  by (simp add: running_command_parts)

text \<open>
  The claim as first stated covers every shutdown path. On the path that cancels the
  context and then calls Close, the subprocess is killed while the Store is still open.
\<close>

theorem subprocess_killed_before_Store_close_counterexample:
  "snd (snd (shutdown example_env [CancelCtx, CallClose] running_state)) =
     snd (snd running_state) @ [Cmd_Killed, Call_HTTP_Close, Call_Unmount, Call_Store_Close] \<and>
   \<not> only_after Call_Store_Close Cmd_Killed
       (snd (snd (shutdown example_env [CancelCtx, CallClose] running_state)))"
  unfolding cancel_then_close
  unfolding running_state_eq static_run_trace
  by simp

subsection \<open>openStore and the published variable\<close>

lemma openStore_step:
  assumes "openStore E (c, g, t) = (r, c', g', t')" and "once_inv g t"
  shows "once_inv g' t' \<and> (r = Panic) = (Store c = None) \<and>
         expvar_vars g' =
           (if expvarOnce g then expvar_vars g
            else case (Store c, Store_Open E) of
                   (Some st, None) \<Rightarrow> [(''store'', st\<lparr>Store_Leaser := Leaser c\<rparr>)]
                 | _ \<Rightarrow> [])"
  using assms
  by (auto simp: openStore.simps expvar_Publish_def once_inv_def Let_def
           split: option.splits if_splits)

lemma openStore_calls_inv:
  "once_inv g t \<Longrightarrow> openStore_calls cs (g, t) = (g', t') \<Longrightarrow> once_inv g' t'"
proof (induction cs arbitrary: g t)
  case Nil
  then show ?case by simp
next
  case (Cons x cs)
  obtain E c where x: "x = (E, c)" by (cases x) auto
  obtain r c1 g1 t1 where o: "openStore E (c, g, t) = (r, c1, g1, t1)"
    by (cases "openStore E (c, g, t)") auto
  from openStore_step[OF o Cons.prems(1)] have i: "once_inv g1 t1" by simp
  show ?case
  proof (cases "r = Panic")
    case True
    with Cons.prems(2) x o i show ?thesis by simp
  next
    case False
    with Cons.prems(2) x o have "openStore_calls cs (g1, t1) = (g', t')"
      by (cases r) auto
    from Cons.IH[OF i this] show ?thesis .
  qed
qed

lemma openStore_calls_published:
  "once_inv g t \<Longrightarrow>
   expvar_vars (fst (openStore_calls cs (g, t))) =
     (if expvarOnce g then expvar_vars g else first_opened cs)"
proof (induction cs arbitrary: g t)
  case Nil
  then show ?case by (simp add: once_inv_def)
next
  case (Cons x cs)
  obtain E c where x: "x = (E, c)" by (cases x) auto
  obtain r c1 g1 t1 where o: "openStore E (c, g, t) = (r, c1, g1, t1)"
    by (cases "openStore E (c, g, t)") auto
  show ?case
  proof (cases "Store c")
    case None
    with o have "r = Panic" "g1 = g" by (auto simp: openStore.simps)
    with o x None Cons.prems show ?thesis by (simp add: once_inv_def)
  next
    case (Some st)
    from openStore_step[OF o Cons.prems(1)] Some
    have i: "once_inv g1 t1" and np: "r \<noteq> Panic" and
      v: "expvar_vars g1 =
           (if expvarOnce g then expvar_vars g
            else case Store_Open E of None \<Rightarrow> [(''store'', st\<lparr>Store_Leaser := Leaser c\<rparr>)]
                 | Some e \<Rightarrow> [])"
      by auto
    from o np x have step: "openStore_calls (x # cs) (g, t) = openStore_calls cs (g1, t1)"
      by (cases r) auto
    note ih = Cons.IH[OF i]
    from o Some have once: "expvarOnce g1 = (expvarOnce g \<or> Store_Open E = None)"
      by (auto simp: openStore.simps expvar_Publish_def Let_def split: option.splits if_splits)
    show ?thesis
      unfolding step ih using v once x Some
      by (auto split: option.splits)
  qed
qed

lemma first_opened_length: "length (first_opened cs) \<le> 1"
  by (induction cs) (auto split: option.splits)

lemma first_opened_iff:
  "(first_opened cs \<noteq> []) =
     (\<exists>p E c q. cs = p @ (E, c) # q \<and> (\<forall>x\<in>set p. Store (snd x) \<noteq> None) \<and>
        Store c \<noteq> None \<and> Store_Open E = None)"
proof (induction cs)
  case Nil
  then show ?case by simp
next
  case (Cons x cs)
  obtain E c where x: "x = (E, c)" by (cases x) auto
  let ?P = "\<lambda>l p E' c' q. l = p @ (E', c') # q \<and> (\<forall>x\<in>set p. Store (snd x) \<noteq> None) \<and>
        Store c' \<noteq> None \<and> Store_Open E' = None"
  show ?case
  proof (cases "Store c")
    case None
    have "\<not> (\<exists>p E' c' q. ?P (x # cs) p E' c' q)"
    proof
      assume "\<exists>p E' c' q. ?P (x # cs) p E' c' q"
      then obtain p E' c' q where a: "?P (x # cs) p E' c' q" by (elim exE)
      with None x show False by (cases p) auto
    qed
    moreover have "first_opened (x # cs) = []" using None x by simp
    ultimately show ?thesis by simp
  next
    case st: (Some st)
    show ?thesis
    proof (cases "Store_Open E")
      case None
      have "?P (x # cs) [] E c cs" using x st None by simp
      then have "\<exists>p E' c' q. ?P (x # cs) p E' c' q" by (intro exI)
      moreover have "first_opened (x # cs) \<noteq> []" using x st None by simp
      ultimately show ?thesis by simp
    next
      case (Some e)
      have l: "first_opened (x # cs) = first_opened cs"
        using x st Some by simp
      have "(\<exists>p E' c' q. ?P (x # cs) p E' c' q) = (\<exists>p E' c' q. ?P cs p E' c' q)"
      proof
        assume "\<exists>p E' c' q. ?P (x # cs) p E' c' q"
        then obtain p E' c' q where a: "?P (x # cs) p E' c' q" by (elim exE)
        from a x Some obtain p' where p: "p = x # p'" "cs = p' @ (E', c') # q"
          by (cases p) auto
        with a have "?P cs p' E' c' q" by simp
        then show "\<exists>p E' c' q. ?P cs p E' c' q" by (intro exI)
      next
        assume "\<exists>p E' c' q. ?P cs p E' c' q"
        then obtain p E' c' q where a: "?P cs p E' c' q" by (elim exE)
        have "?P (x # cs) (x # p) E' c' q"
          using a x st by simp
        then show "\<exists>p E' c' q. ?P (x # cs) p E' c' q" by (intro exI)
      qed
      with l Cons.IH show ?thesis by simp
    qed
  qed
qed

lemma openStore_guard:
  "expvarOnce g \<Longrightarrow> globals_of (openStore E (c, g, t)) = g"
  "expvarOnce g \<Longrightarrow>
     count_list (trace_of (openStore E (c, g, t))) Call_Publish = count_list t Call_Publish"
  "\<not> expvarOnce g \<Longrightarrow> Store c \<noteq> None \<Longrightarrow> Store_Open E = None \<Longrightarrow>
     expvarOnce (globals_of (openStore E (c, g, t)))"
  by (auto simp: openStore.simps globals_of_def trace_of_def expvar_Publish_def Let_def
           split: option.splits)

lemma leased_command_Store:
  "Store (leased_command dir) =
     Some \<lparr>Store_path = dir, Store_candidate = True, Store_Debug = False,
           Store_StrictVerify = False, RetentionDuration = 0, RetentionMonitorInterval = 0,
           Store_Client = None, Store_Leaser = None, Invalidator = None\<rparr>"
  "Leaser (leased_command dir) =
     Some (StaticL \<lparr>StaticLeaser_isPrimary = True, StaticLeaser_hostname = ''node1'',
                     StaticLeaser_advertiseURL = ''http://node1:20202''\<rparr>)"
  by (simp_all add: leased_command_def stored_command_def example_env_def NewMountCommand_def)

lemma once_inv0: "once_inv globals0 []"
  by (simp add: once_inv_def globals0_def)

text \<open>
  C5 (as amended). Over any sequence of openStore calls in one process, on any commands,
  the variable \<open>store\<close> is published at most once. It is published exactly once when
  some call opens its Store and neither that call nor an earlier one is on a command
  with no Store (such a call panics at line 274 and ends the process), and not at all
  otherwise; the value published is the Store of the first call that opens its Store.
  The guard is the package variable \<open>expvarOnce\<close>, a part of the process state shared
  by all commands, not an object owned by the caller: it is set exactly when the
  variable has been published, and once it is set, openStore on any command publishes
  nothing and leaves the process state as it is.
\<close>

theorem expvar_published_at_most_once:
  "count_list (snd (openStore_calls cs (globals0, []))) Call_Publish \<le> 1 \<and>
   count_list (snd (openStore_calls cs (globals0, []))) Call_Publish =
     length (expvar_vars (fst (openStore_calls cs (globals0, [])))) \<and>
   expvar_vars (fst (openStore_calls cs (globals0, []))) = first_opened cs \<and>
   (count_list (snd (openStore_calls cs (globals0, []))) Call_Publish = 1) =
     (\<exists>p E c q. cs = p @ (E, c) # q \<and> (\<forall>x\<in>set p. Store (snd x) \<noteq> None) \<and>
        Store c \<noteq> None \<and> Store_Open E = None) \<and>
   expvarOnce (fst (openStore_calls cs (globals0, []))) =
     (count_list (snd (openStore_calls cs (globals0, []))) Call_Publish = 1) \<and>
   (expvarOnce g \<longrightarrow>
      globals_of (openStore E0 (c0, g, t)) = g \<and>
      count_list (trace_of (openStore E0 (c0, g, t))) Call_Publish = count_list t Call_Publish)"
proof -
  obtain g' t' where r: "openStore_calls cs (globals0, []) = (g', t')"
    by (cases "openStore_calls cs (globals0, [])") auto
  from openStore_calls_inv[OF once_inv0 r] have i: "once_inv g' t'" .
  then have a: "count_list t' Call_Publish \<le> 1"
    "count_list t' Call_Publish = length (expvar_vars g')"
    "expvarOnce g' = (count_list t' Call_Publish = 1)"
    by (auto simp: once_inv_def split: if_splits)
  from openStore_calls_published[OF once_inv0, of cs] r
  have b: "expvar_vars g' = first_opened cs" by (simp add: globals0_def)
  have "(count_list t' Call_Publish = 1) = (first_opened cs \<noteq> [])"
    using a(2) b first_opened_length[of cs] by (cases "first_opened cs") auto
  then have c: "(count_list t' Call_Publish = 1) =
     (\<exists>p E c q. cs = p @ (E, c) # q \<and> (\<forall>x\<in>set p. Store (snd x) \<noteq> None) \<and>
        Store c \<noteq> None \<and> Store_Open E = None)"
    unfolding first_opened_iff .
  have d: "expvarOnce g \<longrightarrow>
      globals_of (openStore E0 (c0, g, t)) = g \<and>
      count_list (trace_of (openStore E0 (c0, g, t))) Call_Publish = count_list t Call_Publish"
    using openStore_guard(1,2)[of g E0 c0 t] by blast
  from a b c d show ?thesis unfolding r fst_conv snd_conv by blast
qed

lemma stored_command_Store:
  "Store (stored_command dir) =
     Some \<lparr>Store_path = dir, Store_candidate = True, Store_Debug = False,
           Store_StrictVerify = False, RetentionDuration = 0, RetentionMonitorInterval = 0,
           Store_Client = None, Store_Leaser = None, Invalidator = None\<rparr>"
  "Leaser (stored_command dir) = None"
  by (simp_all add: stored_command_def example_env_def NewMountCommand_def)

lemma Store_Open_examples:
  "Store_Open example_env = None"
  "Store_Open failing_open_env = Some (Foreign ''open failed'')"
  by (simp_all add: example_env_def failing_open_env_def)

lemma published_globals_example: "expvarOnce published_globals"
  by (simp add: published_globals_def)

theorem expvar_published_at_most_once_witness:
  "Store (leased_command ''/a'') \<noteq> None \<and> Store (leased_command ''/b'') \<noteq> None \<and>
   Store_Open failing_open_env \<noteq> None \<and> Store_Open example_env = None \<and>
   expvar_vars (fst (openStore_calls
      [(failing_open_env, leased_command ''/a''), (example_env, leased_command ''/b''),
       (example_env, leased_command ''/c'')] (globals0, []))) =
     [(''store'',
       \<lparr>Store_path = ''/b'', Store_candidate = True, Store_Debug = False,
         Store_StrictVerify = False, RetentionDuration = 0, RetentionMonitorInterval = 0,
         Store_Client = None,
         Store_Leaser = Some (StaticL \<lparr>StaticLeaser_isPrimary = True,
           StaticLeaser_hostname = ''node1'', StaticLeaser_advertiseURL = ''http://node1:20202''\<rparr>),
         Invalidator = None\<rparr>)] \<and>
   count_list (snd (openStore_calls
      [(failing_open_env, leased_command ''/a''), (example_env, leased_command ''/b''),
       (example_env, leased_command ''/c'')] (globals0, []))) Call_Publish = 1 \<and>
   expvarOnce published_globals \<and>
   globals_of (openStore example_env (leased_command ''/c'', published_globals,
      [Set_Store_Leaser, Call_Store_Open, Call_Publish])) = published_globals \<and>
   count_list (trace_of (openStore example_env (leased_command ''/c'', published_globals,
      [Set_Store_Leaser, Call_Store_Open, Call_Publish]))) Call_Publish = 1"
proof -
  let ?cs = "[(failing_open_env, leased_command ''/a''), (example_env, leased_command ''/b''),
       (example_env, leased_command ''/c'')]"
  let ?t = "[Set_Store_Leaser, Call_Store_Open, Call_Publish]"
  note th = expvar_published_at_most_once[of ?cs published_globals example_env
      "leased_command ''/c''" ?t]
  have "?cs = [(failing_open_env, leased_command ''/a'')] @
       (example_env, leased_command ''/b'') # [(example_env, leased_command ''/c'')] \<and>
     (\<forall>x\<in>set [(failing_open_env, leased_command ''/a'')]. Store (snd x) \<noteq> None) \<and>
     Store (leased_command ''/b'') \<noteq> None \<and> Store_Open example_env = None"
    by (simp add: leased_command_Store Store_Open_examples)
  then have ex: "\<exists>p E c q. ?cs = p @ (E, c) # q \<and> (\<forall>x\<in>set p. Store (snd x) \<noteq> None) \<and>
        Store c \<noteq> None \<and> Store_Open E = None"
    by (intro exI)
  from th have iff: "(count_list (snd (openStore_calls ?cs (globals0, []))) Call_Publish = 1) =
     (\<exists>p E c q. ?cs = p @ (E, c) # q \<and> (\<forall>x\<in>set p. Store (snd x) \<noteq> None) \<and>
        Store c \<noteq> None \<and> Store_Open E = None)"
    by (elim conjE)
  from iff ex have c1: "count_list (snd (openStore_calls ?cs (globals0, []))) Call_Publish = 1"
    by (rule iffD2)
  from th have v: "expvar_vars (fst (openStore_calls ?cs (globals0, []))) = first_opened ?cs"
    by (elim conjE)
  have f: "first_opened ?cs = [(''store'',
       \<lparr>Store_path = ''/b'', Store_candidate = True, Store_Debug = False,
         Store_StrictVerify = False, RetentionDuration = 0, RetentionMonitorInterval = 0,
         Store_Client = None,
         Store_Leaser = Some (StaticL \<lparr>StaticLeaser_isPrimary = True,
           StaticLeaser_hostname = ''node1'', StaticLeaser_advertiseURL = ''http://node1:20202''\<rparr>),
         Invalidator = None\<rparr>)]"
    by (simp add: leased_command_Store Store_Open_examples)
  from th have "expvarOnce published_globals \<longrightarrow>
      globals_of (openStore example_env (leased_command ''/c'', published_globals, ?t)) =
        published_globals \<and>
      count_list (trace_of (openStore example_env (leased_command ''/c'', published_globals, ?t)))
        Call_Publish = count_list ?t Call_Publish"
    by (elim conjE)
  with published_globals_example
  have g: "globals_of (openStore example_env (leased_command ''/c'', published_globals, ?t)) =
        published_globals"
    "count_list (trace_of (openStore example_env (leased_command ''/c'', published_globals, ?t)))
        Call_Publish = 1"
    by simp_all
  show ?thesis
    unfolding c1 v f g
    by (simp add: leased_command_Store Store_Open_examples published_globals_example)
qed

text \<open>
  The claim as first stated has the publication happen exactly once for every sequence
  of calls. A call whose \<open>Store.Open\<close> fails returns before \<open>expvarOnce.Do\<close>, and
  nothing is published.
\<close>

theorem expvar_not_published_counterexample:
  "count_list (snd (openStore_calls [(failing_open_env, stored_command ''/a'')] (globals0, [])))
     Call_Publish = 0 \<and>
   expvar_vars (fst (openStore_calls [(failing_open_env, stored_command ''/a'')] (globals0, []))) = []"
  by (simp add: openStore.simps stored_command_Store Store_Open_examples globals0_def)

subsection \<open>initStore and initConsul\<close>

text \<open>
  C7. The configuration reaches the components. initStore creates the Store from the
  data directory and the candidate flag, and sets on it the retention duration and the
  retention monitor interval of the configuration (with the debug and strict-verify
  flags and the HTTP client). In initConsul, the leaser's key is replaced by the
  configured key exactly when that key is not empty, and its TTL and lock delay by the
  configured ones exactly when these are greater than zero; otherwise the leaser keeps
  what \<open>consul.NewLeaser\<close> gave it.
\<close>

theorem knobs_forwarded:
  "result_of (initStore E (c, g, t)) = Return None \<and>
   trace_of (initStore E (c, g, t)) =
     t @ [Call_NewStore (DataDir (Config c)) (Candidate (Config c))] \<and>
   Store (command_of (initStore E (c, g, t))) =
     Some ((litefs_NewStore E (DataDir (Config c)) (Candidate (Config c)))
       \<lparr>Store_Debug := Debug (Config c),
        Store_StrictVerify := StrictVerify (Config c),
        RetentionDuration := Retention_Duration (Retention (Config c)),
        RetentionMonitorInterval := Retention_MonitorInterval (Retention (Config c)),
        Store_Client := Some HTTPClient\<rparr>) \<and>
   (\<forall>cc h a. Consul (Config c) = Some cc \<and> consul_hostname E cc = Inr h \<and>
        consul_advertiseURL E c cc h = Some a \<and> consul_Open E = None \<longrightarrow>
      (\<exists>l. Leaser (command_of (initConsul E (c, g, t))) = Some (ConsulL l) \<and>
         Key l = (if Consul_Key cc \<noteq> [] then Consul_Key cc
                  else Key (consul_NewLeaser E (Consul_URL cc) h a)) \<and>
         TTL l = (if 0 < Consul_TTL cc then Consul_TTL cc
                  else TTL (consul_NewLeaser E (Consul_URL cc) h a)) \<and>
         LockDelay l = (if 0 < Consul_LockDelay cc then Consul_LockDelay cc
                        else LockDelay (consul_NewLeaser E (Consul_URL cc) h a)) \<and>
         Leaser_URL l = Leaser_URL (consul_NewLeaser E (Consul_URL cc) h a) \<and>
         Leaser_Hostname l = Leaser_Hostname (consul_NewLeaser E (Consul_URL cc) h a) \<and>
         Leaser_AdvertiseURL l = Leaser_AdvertiseURL (consul_NewLeaser E (Consul_URL cc) h a)))"
  by (simp add: initStore.simps initConsul.simps result_of_def command_of_def trace_of_def
        consul_overrides_def Let_def)

lemma consul_section_example:
  "Consul (Config (listening (NewMountCommand consul_config))) =
     Some \<lparr>Consul_URL = ''http://localhost:8500'', Consul_Hostname = [],
            Consul_AdvertiseURL = [], Consul_Key = ''litefs/test'',
            Consul_TTL = 0, Consul_LockDelay = 5000000000\<rparr>"
  "AdvertiseURLFn (listening (NewMountCommand consul_config)) = None"
  "HTTPServer (listening (NewMountCommand consul_config)) \<noteq> None"
  by (simp_all add: listening_def NewMountCommand_def consul_config_def static_config_def)

lemma example_env_consul:
  "os_Hostname example_env = Inr ''node1''"
  "http_Port example_env = 20202"
  "consul_Open example_env = None"
  "consul_NewLeaser example_env u h a =
     \<lparr>Leaser_URL = u, Leaser_Hostname = h, Leaser_AdvertiseURL = a,
      Key = ''litefs/primary'', TTL = 10000000000, LockDelay = 1000000000\<rparr>"
  by (simp_all add: example_env_def)

lemma initConsul_example:
  "initConsul example_env (listening (NewMountCommand consul_config), globals0, []) =
     (Return None,
      (listening (NewMountCommand consul_config))
        \<lparr>Leaser := Some (ConsulL
           \<lparr>Leaser_URL = ''http://localhost:8500'', Leaser_Hostname = ''node1'',
            Leaser_AdvertiseURL = ''http://node1:20202'',
            Key = ''litefs/test'', TTL = 10000000000, LockDelay = 5000000000\<rparr>)\<rparr>,
      globals0,
      [Call_consul_NewLeaser ''http://localhost:8500'' ''node1'' ''http://node1:20202'',
       Call_consul_Open])"
  by (simp add: initConsul.simps consul_section_example example_env_consul consul_hostname_def
        consul_advertiseURL_def consul_overrides_def Sprintf_d_example Let_def
        split: option.splits)

lemma initStore_example:
  "Store (command_of (initStore example_env (NewMountCommand static_config, globals0, []))) =
     Some \<lparr>Store_path = ''/var/lib/litefs'', Store_candidate = True, Store_Debug = False,
           Store_StrictVerify = False, RetentionDuration = 600000000000,
           RetentionMonitorInterval = 60000000000, Store_Client = Some HTTPClient,
           Store_Leaser = None, Invalidator = None\<rparr>"
  by (simp add: initStore.simps command_of_def example_simps)

theorem knobs_forwarded_witness:
  "Consul (Config (listening (NewMountCommand consul_config))) =
     Some \<lparr>Consul_URL = ''http://localhost:8500'', Consul_Hostname = [],
            Consul_AdvertiseURL = [], Consul_Key = ''litefs/test'',
            Consul_TTL = 0, Consul_LockDelay = 5000000000\<rparr> \<and>
   consul_Open example_env = None \<and>
   Leaser (command_of (initConsul example_env
      (listening (NewMountCommand consul_config), globals0, []))) =
     Some (ConsulL
       \<lparr>Leaser_URL = ''http://localhost:8500'', Leaser_Hostname = ''node1'',
        Leaser_AdvertiseURL = ''http://node1:20202'',
        Key = ''litefs/test'', TTL = 10000000000, LockDelay = 5000000000\<rparr>) \<and>
   Store (command_of (initStore example_env (NewMountCommand static_config, globals0, []))) =
     Some \<lparr>Store_path = ''/var/lib/litefs'', Store_candidate = True, Store_Debug = False,
           Store_StrictVerify = False, RetentionDuration = 600000000000,
           RetentionMonitorInterval = 60000000000, Store_Client = Some HTTPClient,
           Store_Leaser = None, Invalidator = None\<rparr>"
  using knobs_forwarded[of example_env "listening (NewMountCommand consul_config)" globals0 "[]"]
    knobs_forwarded[of example_env "NewMountCommand static_config" globals0 "[]"]
  unfolding initConsul_example initStore_example
  by (simp add: consul_section_example example_env_consul command_of_def)

lemma digit_cases:
  assumes "d < (10::nat)"
  shows "d = 0 \<or> d = 1 \<or> d = 2 \<or> d = 3 \<or> d = 4 \<or> d = 5 \<or> d = 6 \<or> d = 7 \<or> d = 8 \<or> d = 9"
  using assms by arith

lemma digit_nth:
  "digit 0 = CHR ''0''" "digit 1 = CHR ''1''" "digit 2 = CHR ''2''" "digit 3 = CHR ''3''"
  "digit 4 = CHR ''4''" "digit 5 = CHR ''5''" "digit 6 = CHR ''6''" "digit 7 = CHR ''7''"
  "digit 8 = CHR ''8''" "digit 9 = CHR ''9''" "digit (Suc 0) = CHR ''1''"
  by (simp_all add: digit_def)

lemma digit_value_digit: "d < 10 \<Longrightarrow> digit_value (digit d) = d"
  using digit_cases[of d] by (auto simp: digit_nth digit_value_def)

lemma digit_in: "d < 10 \<Longrightarrow> digit d \<in> set ''0123456789''"
  using digit_cases[of d] by (auto simp: digit_nth)

lemma digit_zero: "d < 10 \<Longrightarrow> (digit d = CHR ''0'') = (d = 0)"
  using digit_cases[of d] by (auto simp: digit_nth)

lemma nat_of_digits_snoc:
  "nat_of_digits (ds @ [ch]) = 10 * nat_of_digits ds + digit_value ch"
  by (simp add: nat_of_digits_def)

lemma nat_of_digits_decimal: "nat_of_digits (decimal n) = n"
proof (induction n rule: decimal.induct)
  case (1 n)
  show ?case
  proof (cases "n < 10")
    case True
    then show ?thesis
      by (simp add: decimal.simps[of n] nat_of_digits_def digit_value_digit)
  next
    case False
    with 1 have "nat_of_digits (decimal (n div 10)) = n div 10" by simp
    with False show ?thesis
      by (simp add: decimal.simps[of n] nat_of_digits_snoc digit_value_digit)
  qed
qed

lemma decimal_digits: "set (decimal n) \<subseteq> set ''0123456789''"
proof (induction n rule: decimal.induct)
  case (1 n)
  show ?case
  proof (cases "n < 10")
    case True
    with digit_in[of n] show ?thesis by (simp add: decimal.simps[of n])
  next
    case False
    with 1 have "set (decimal (n div 10)) \<subseteq> set ''0123456789''" by simp
    with False digit_in[of "n mod 10"] show ?thesis
      by (simp add: decimal.simps[of n])
  qed
qed

lemma decimal_not_Nil: "decimal n \<noteq> []"
  by (simp add: decimal.simps[of n])

lemma decimal_hd: "(hd (decimal n) = CHR ''0'') = (n = 0)"
proof (induction n rule: decimal.induct)
  case (1 n)
  show ?case
  proof (cases "n < 10")
    case True
    then show ?thesis by (simp add: decimal.simps[of n] digit_zero)
  next
    case False
    with 1 have "(hd (decimal (n div 10)) = CHR ''0'') = (n div 10 = 0)" by simp
    with False show ?thesis
      by (simp add: decimal.simps[of n] decimal_not_Nil)
  qed
qed

lemma decimal_no_minus: "hd (decimal n) \<noteq> CHR ''-''"
proof -
  have "hd (decimal n) \<in> set (decimal n)" by (simp add: decimal_not_Nil)
  with decimal_digits[of n] have "hd (decimal n) \<in> set ''0123456789''" by blast
  then show ?thesis by auto
qed

lemma read_int_Sprintf_d: "read_int (Sprintf_d i) = i"
proof (cases "i < 0")
  case True
  then show ?thesis by (simp add: read_int_def Sprintf_d_def nat_of_digits_decimal)
next
  case False
  obtain ch ds where d: "decimal (nat i) = ch # ds"
    using decimal_not_Nil[of "nat i"] by (cases "decimal (nat i)") auto
  with decimal_no_minus[of "nat i"] have "ch \<noteq> CHR ''-''" by simp
  with False d nat_of_digits_decimal[of "nat i"] show ?thesis
    by (simp add: read_int_def Sprintf_d_def)
qed

lemma Sprintf_d_canonical:
  "0 \<le> i \<Longrightarrow> set (Sprintf_d i) \<subseteq> set ''0123456789''"
  "0 \<le> i \<Longrightarrow> (hd (Sprintf_d i) = CHR ''0'') = (i = 0)"
  "i < 0 \<Longrightarrow> Sprintf_d i = CHR ''-'' # Sprintf_d (- i)"
  "Sprintf_d i \<noteq> []"
  using decimal_digits[of "nat i"] decimal_hd[of "nat i"]
  by (auto simp: Sprintf_d_def decimal_not_Nil)

lemma Sprintf_d_8080: "Sprintf_d 8080 = ''8080''"
  by (simp add: Sprintf_d_def decimal.simps digit_def)

lemma Sprintf_d_zero: "Sprintf_d 0 = ''0''"
  by (simp add: Sprintf_d_def decimal.simps digit_def)

text \<open>
  C8. In initConsul, an empty configured hostname is replaced by the hostname of the
  operating system, and initConsul returns the error of that lookup when it fails. With
  an empty configured advertise URL and no injection function, a hostname that is not
  empty gives the advertise URL \<open>http://<hostname>:<port of the HTTP server>\<close>, the
  port written as a decimal numeral: reading it back gives the port, it is never
  empty, a port that is not negative is written with digits only and with no leading
  zero, and a negative one with a minus sign before the numeral of its opposite. An
  injection function, when set, replaces the configured advertise URL whatever it is:
  the URL passed to the leaser does not depend on the configured one.
\<close>

theorem consul_defaults:
  assumes "Consul (Config c) = Some cc"
  shows
    "(Consul_Hostname cc = [] \<longrightarrow>
        (\<forall>e. os_Hostname E = Inl e \<longrightarrow> initConsul E (c, g, t) = (Return (Some e), c, g, t)) \<and>
        (\<forall>h. os_Hostname E = Inr h \<and> HTTPServer c \<noteq> None \<longrightarrow>
           (\<exists>a. trace_of (initConsul E (c, g, t)) =
                  t @ [Call_consul_NewLeaser (Consul_URL cc) h a, Call_consul_Open]))) \<and>
     (Consul_Hostname cc \<noteq> [] \<and> HTTPServer c \<noteq> None \<longrightarrow>
        (\<exists>a. trace_of (initConsul E (c, g, t)) =
               t @ [Call_consul_NewLeaser (Consul_URL cc) (Consul_Hostname cc) a, Call_consul_Open])) \<and>
     (\<forall>h. consul_hostname E cc = Inr h \<and> h \<noteq> [] \<and> Consul_AdvertiseURL cc = [] \<and>
          AdvertiseURLFn c = None \<and> HTTPServer c \<noteq> None \<longrightarrow>
        trace_of (initConsul E (c, g, t)) =
          t @ [Call_consul_NewLeaser (Consul_URL cc) h
                 (''http://'' @ h @ '':'' @ Sprintf_d (http_Port E)),
               Call_consul_Open]) \<and>
     (\<forall>h f. consul_hostname E cc = Inr h \<and> AdvertiseURLFn c = Some f \<and> HTTPServer c \<noteq> None \<longrightarrow>
        (\<forall>x. trace_of (initConsul E
                 (c\<lparr>Config := (Config c)\<lparr>Consul := Some (cc\<lparr>Consul_AdvertiseURL := x\<rparr>)\<rparr>\<rparr>, g, t)) =
              t @ [Call_consul_NewLeaser (Consul_URL cc) h
                     (if f () = [] \<and> h \<noteq> []
                      then ''http://'' @ h @ '':'' @ Sprintf_d (http_Port E) else f ()),
                   Call_consul_Open])) \<and>
     read_int (Sprintf_d (http_Port E)) = http_Port E \<and>
     Sprintf_d (http_Port E) \<noteq> [] \<and>
     (0 \<le> http_Port E \<longrightarrow>
        set (Sprintf_d (http_Port E)) \<subseteq> set ''0123456789'' \<and>
        (hd (Sprintf_d (http_Port E)) = CHR ''0'' \<longrightarrow> Sprintf_d (http_Port E) = ''0'')) \<and>
     (http_Port E < 0 \<longrightarrow>
        Sprintf_d (http_Port E) = CHR ''-'' # Sprintf_d (- http_Port E))"
proof -
  have main: "(Consul_Hostname cc = [] \<longrightarrow>
        (\<forall>e. os_Hostname E = Inl e \<longrightarrow> initConsul E (c, g, t) = (Return (Some e), c, g, t)) \<and>
        (\<forall>h. os_Hostname E = Inr h \<and> HTTPServer c \<noteq> None \<longrightarrow>
           (\<exists>a. trace_of (initConsul E (c, g, t)) =
                  t @ [Call_consul_NewLeaser (Consul_URL cc) h a, Call_consul_Open]))) \<and>
     (Consul_Hostname cc \<noteq> [] \<and> HTTPServer c \<noteq> None \<longrightarrow>
        (\<exists>a. trace_of (initConsul E (c, g, t)) =
               t @ [Call_consul_NewLeaser (Consul_URL cc) (Consul_Hostname cc) a, Call_consul_Open])) \<and>
     (\<forall>h. consul_hostname E cc = Inr h \<and> h \<noteq> [] \<and> Consul_AdvertiseURL cc = [] \<and>
          AdvertiseURLFn c = None \<and> HTTPServer c \<noteq> None \<longrightarrow>
        trace_of (initConsul E (c, g, t)) =
          t @ [Call_consul_NewLeaser (Consul_URL cc) h
                 (''http://'' @ h @ '':'' @ Sprintf_d (http_Port E)),
               Call_consul_Open]) \<and>
     (\<forall>h f. consul_hostname E cc = Inr h \<and> AdvertiseURLFn c = Some f \<and> HTTPServer c \<noteq> None \<longrightarrow>
        (\<forall>x. trace_of (initConsul E
                 (c\<lparr>Config := (Config c)\<lparr>Consul := Some (cc\<lparr>Consul_AdvertiseURL := x\<rparr>)\<rparr>\<rparr>, g, t)) =
              t @ [Call_consul_NewLeaser (Consul_URL cc) h
                     (if f () = [] \<and> h \<noteq> []
                      then ''http://'' @ h @ '':'' @ Sprintf_d (http_Port E) else f ()),
                   Call_consul_Open]))"
    using assms
    by (auto simp: initConsul.simps consul_hostname_def consul_advertiseURL_def trace_of_def Let_def
             split: option.splits sum.splits)
  have zero: "hd (Sprintf_d (http_Port E)) = CHR ''0'' \<longrightarrow> Sprintf_d (http_Port E) = ''0''"
    if "0 \<le> http_Port E"
    using Sprintf_d_canonical(2)[OF that] Sprintf_d_zero by auto
  have fmt: "read_int (Sprintf_d (http_Port E)) = http_Port E \<and>
     Sprintf_d (http_Port E) \<noteq> [] \<and>
     (0 \<le> http_Port E \<longrightarrow>
        set (Sprintf_d (http_Port E)) \<subseteq> set ''0123456789'' \<and>
        (hd (Sprintf_d (http_Port E)) = CHR ''0'' \<longrightarrow> Sprintf_d (http_Port E) = ''0'')) \<and>
     (http_Port E < 0 \<longrightarrow>
        Sprintf_d (http_Port E) = CHR ''-'' # Sprintf_d (- http_Port E))"
    using read_int_Sprintf_d[of "http_Port E"] Sprintf_d_canonical(1,3,4)[of "http_Port E"] zero
    by blast
  from main fmt show ?thesis by blast
qed

lemma port_8080_env_consul:
  "os_Hostname port_8080_env = Inr ''node1''"
  "http_Port port_8080_env = 8080"
  "consul_hostname port_8080_env
     \<lparr>Consul_URL = ''http://localhost:8500'', Consul_Hostname = [],
      Consul_AdvertiseURL = [], Consul_Key = ''litefs/test'',
      Consul_TTL = 0, Consul_LockDelay = 5000000000\<rparr> = Inr ''node1''"
  by (simp_all add: port_8080_env_def example_env_def consul_hostname_def)

lemma injected_command_parts:
  "Consul (Config injected_command) =
     Some \<lparr>Consul_URL = ''http://localhost:8500'', Consul_Hostname = [],
            Consul_AdvertiseURL = [], Consul_Key = ''litefs/test'',
            Consul_TTL = 0, Consul_LockDelay = 5000000000\<rparr>"
  "HTTPServer injected_command \<noteq> None"
  by (simp_all add: injected_command_def NewMountCommand_def consul_config_def static_config_def)

lemma injected_command_fn:
  "AdvertiseURLFn injected_command = Some (\<lambda>u. ''http://injected:1'')"
  by (simp add: injected_command_def)

lemma consul_hostname_example:
  "consul_hostname example_env
     \<lparr>Consul_URL = ''http://localhost:8500'', Consul_Hostname = [],
      Consul_AdvertiseURL = [], Consul_Key = ''litefs/test'',
      Consul_TTL = 0, Consul_LockDelay = 5000000000\<rparr> = Inr ''node1''"
  by (simp add: consul_hostname_def example_env_consul)

theorem consul_defaults_witness:
  "Consul (Config (listening (NewMountCommand consul_config))) =
     Some \<lparr>Consul_URL = ''http://localhost:8500'', Consul_Hostname = [],
            Consul_AdvertiseURL = [], Consul_Key = ''litefs/test'',
            Consul_TTL = 0, Consul_LockDelay = 5000000000\<rparr> \<and>
   os_Hostname example_env = Inr ''node1'' \<and>
   AdvertiseURLFn (listening (NewMountCommand consul_config)) = None \<and>
   HTTPServer (listening (NewMountCommand consul_config)) \<noteq> None \<and>
   trace_of (initConsul example_env (listening (NewMountCommand consul_config), globals0, [])) =
     [Call_consul_NewLeaser ''http://localhost:8500'' ''node1'' ''http://node1:20202'',
      Call_consul_Open] \<and>
   http_Port port_8080_env = 8080 \<and>
   trace_of (initConsul port_8080_env (listening (NewMountCommand consul_config), globals0, [])) =
     [Call_consul_NewLeaser ''http://localhost:8500'' ''node1'' ''http://node1:8080'',
      Call_consul_Open] \<and>
   read_int ''8080'' = 8080 \<and>
   AdvertiseURLFn injected_command = Some (\<lambda>u. ''http://injected:1'') \<and>
   trace_of (initConsul example_env
     (injected_command\<lparr>Config := (Config injected_command)\<lparr>Consul := Some
         (\<lparr>Consul_URL = ''http://localhost:8500'', Consul_Hostname = [],
            Consul_AdvertiseURL = [], Consul_Key = ''litefs/test'',
            Consul_TTL = 0, Consul_LockDelay = 5000000000\<rparr>
          \<lparr>Consul_AdvertiseURL := ''http://configured:2''\<rparr>)\<rparr>\<rparr>, globals0, [])) =
     [Call_consul_NewLeaser ''http://localhost:8500'' ''node1'' ''http://injected:1'',
      Call_consul_Open]"
proof -
  note d = consul_defaults[OF consul_section_example(1), of example_env globals0 "[]"]
  note e = consul_defaults[OF consul_section_example(1), of port_8080_env globals0 "[]"]
  note i = consul_defaults[OF injected_command_parts(1), of example_env globals0 "[]"]
  from i consul_hostname_example injected_command_fn injected_command_parts(2)
  have "trace_of (initConsul example_env
     (injected_command\<lparr>Config := (Config injected_command)\<lparr>Consul := Some
         (\<lparr>Consul_URL = ''http://localhost:8500'', Consul_Hostname = [],
            Consul_AdvertiseURL = [], Consul_Key = ''litefs/test'',
            Consul_TTL = 0, Consul_LockDelay = 5000000000\<rparr>
          \<lparr>Consul_AdvertiseURL := ''http://configured:2''\<rparr>)\<rparr>\<rparr>, globals0, [])) =
     [] @ [Call_consul_NewLeaser
        (Consul_URL \<lparr>Consul_URL = ''http://localhost:8500'', Consul_Hostname = [],
            Consul_AdvertiseURL = [], Consul_Key = ''litefs/test'',
            Consul_TTL = 0, Consul_LockDelay = 5000000000\<rparr>) ''node1''
        (if (\<lambda>u. ''http://injected:1'') () = [] \<and> ''node1'' \<noteq> []
         then ''http://'' @ ''node1'' @ '':'' @ Sprintf_d (http_Port example_env)
         else (\<lambda>u. ''http://injected:1'') ()),
      Call_consul_Open]"
    by blast
  moreover from e have "read_int (Sprintf_d (http_Port port_8080_env)) = http_Port port_8080_env"
    by (elim conjE)
  then have "read_int ''8080'' = 8080"
    by (simp add: port_8080_env_consul Sprintf_d_8080)
  moreover from e port_8080_env_consul(3) consul_section_example(2,3)
  have "trace_of (initConsul port_8080_env (listening (NewMountCommand consul_config), globals0, [])) =
     [] @ [Call_consul_NewLeaser
        (Consul_URL \<lparr>Consul_URL = ''http://localhost:8500'', Consul_Hostname = [],
            Consul_AdvertiseURL = [], Consul_Key = ''litefs/test'',
            Consul_TTL = 0, Consul_LockDelay = 5000000000\<rparr>) ''node1''
        (''http://'' @ ''node1'' @ '':'' @ Sprintf_d (http_Port port_8080_env)),
      Call_consul_Open]"
    by simp
  ultimately show ?thesis
    using d
    by (simp add: consul_section_example example_env_consul consul_hostname_example
          Sprintf_d_example Sprintf_d_8080 injected_command_fn port_8080_env_consul)
qed

subsection \<open>parseConfig\<close>

lemma read_paths_search:
  "result_of (read_paths E x ps (c, g, t)) = fst (search E x ps) \<and>
   trace_of (read_paths E x ps (c, g, t)) = t @ snd (search E x ps)"
proof (induction ps arbitrary: c g t)
  case Nil
  show ?case by (simp add: search_def result_of_def trace_of_def)
next
  case (Cons p ps)
  show ?case
  proof (cases "missing E x p")
    case True
    then obtain path e upd where
      a: "filepath_Abs E p = Inr path" and
      r: "ReadConfigFile E path x = (Some e, upd)" and
      n: "os_IsNotExist e"
      by (auto simp: missing_def split: sum.splits option.splits prod.splits)
        (metis prod.collapse)
    from a r n have step: "read_paths E x (p # ps) (c, g, t) =
        read_paths E x ps (c\<lparr>Config := upd (Config c)\<rparr>, g, t @ [Call_ReadConfigFile path])"
      by simp
    from True a have s: "search E x (p # ps) =
        (fst (search E x ps), Call_ReadConfigFile path # snd (search E x ps))"
      by (simp add: search_def abs_path_def Let_def split: list.splits
            del: dropWhile_eq_Nil_conv)
    show ?thesis
      unfolding step s using Cons.IH[of "c\<lparr>Config := upd (Config c)\<rparr>" g "t @ [Call_ReadConfigFile path]"]
      by simp
  next
    case False
    then have s: "search E x (p # ps) = attempt E x p"
      by (simp add: search_def Let_def)
    from False show ?thesis
      unfolding s
      by (auto simp: missing_def attempt_def result_of_def trace_of_def
               split: sum.splits option.splits prod.splits)
  qed
qed

text \<open>
  C10. With an explicit path, parseConfig reads that file only and returns whatever the
  read returns, a missing file included. With no explicit path it tries the search
  paths in order: \<open>litefs.yml\<close> in the working directory, then in the home directory
  of the current user (when there is one), then \<open>/etc/litefs.yml\<close>. It passes over a
  path whose file does not exist, stops at the first other path (with nil when the
  file is read, with an error otherwise) without trying a later one, and returns
  \<open>config file not found\<close> when every path is missing.
\<close>

theorem parseConfig_search:
  "(configPath \<noteq> [] \<longrightarrow>
      result_of (parseConfig E configPath x (c, g, t)) =
        Return (fst (ReadConfigFile E configPath x)) \<and>
      trace_of (parseConfig E configPath x (c, g, t)) = t @ [Call_ReadConfigFile configPath]) \<and>
   (configPath = [] \<longrightarrow>
      result_of (parseConfig E configPath x (c, g, t)) = fst (search E x (configSearchPaths E)) \<and>
      trace_of (parseConfig E configPath x (c, g, t)) = t @ snd (search E x (configSearchPaths E))) \<and>
   configSearchPaths E =
     (case user_Current E of
        None \<Rightarrow> [''litefs.yml'', ''/etc/litefs.yml'']
      | Some HomeDir \<Rightarrow>
          if HomeDir \<noteq> []
          then [''litefs.yml'', filepath_Join E HomeDir ''litefs.yml'', ''/etc/litefs.yml'']
          else [''litefs.yml'', ''/etc/litefs.yml'']) \<and>
   ((\<forall>p\<in>set ps. missing E x p) \<longrightarrow>
      search E x ps =
        (Return (Some (Errorf ''config file not found'')),
         map (\<lambda>p. Call_ReadConfigFile (abs_path E p)) ps)) \<and>
   (\<forall>p rest. \<not> missing E x p \<and> (\<forall>q\<in>set ps. missing E x q) \<longrightarrow>
      search E x (ps @ p # rest) =
        (fst (attempt E x p),
         map (\<lambda>p. Call_ReadConfigFile (abs_path E p)) ps @ snd (attempt E x p)))"
proof -
  have 1: "configPath \<noteq> [] \<longrightarrow>
      result_of (parseConfig E configPath x (c, g, t)) =
        Return (fst (ReadConfigFile E configPath x)) \<and>
      trace_of (parseConfig E configPath x (c, g, t)) = t @ [Call_ReadConfigFile configPath]"
    by (simp add: result_of_def trace_of_def split: prod.splits)
  have 2: "configPath = [] \<longrightarrow>
      result_of (parseConfig E configPath x (c, g, t)) = fst (search E x (configSearchPaths E)) \<and>
      trace_of (parseConfig E configPath x (c, g, t)) = t @ snd (search E x (configSearchPaths E))"
    using read_paths_search[of E x "configSearchPaths E" c g t] by simp
  have 3: "configSearchPaths E =
     (case user_Current E of
        None \<Rightarrow> [''litefs.yml'', ''/etc/litefs.yml'']
      | Some HomeDir \<Rightarrow>
          if HomeDir \<noteq> []
          then [''litefs.yml'', filepath_Join E HomeDir ''litefs.yml'', ''/etc/litefs.yml'']
          else [''litefs.yml'', ''/etc/litefs.yml''])"
    by (simp add: configSearchPaths_def split: option.splits)
  have 4: "(\<forall>p\<in>set ps. missing E x p) \<longrightarrow>
      search E x ps =
        (Return (Some (Errorf ''config file not found'')),
         map (\<lambda>p. Call_ReadConfigFile (abs_path E p)) ps)"
  proof
    assume a: "\<forall>p\<in>set ps. missing E x p"
    then have d: "dropWhile (missing E x) ps = []" and k: "takeWhile (missing E x) ps = ps"
      by simp_all
    show "search E x ps =
        (Return (Some (Errorf ''config file not found'')),
         map (\<lambda>p. Call_ReadConfigFile (abs_path E p)) ps)"
      unfolding search_def Let_def d k by simp
  qed
  have 5: "\<forall>p rest. \<not> missing E x p \<and> (\<forall>q\<in>set ps. missing E x q) \<longrightarrow>
      search E x (ps @ p # rest) =
        (fst (attempt E x p),
         map (\<lambda>p. Call_ReadConfigFile (abs_path E p)) ps @ snd (attempt E x p))"
  proof (intro allI impI)
    fix p rest
    assume a: "\<not> missing E x p \<and> (\<forall>q\<in>set ps. missing E x q)"
    then have d: "dropWhile (missing E x) (ps @ p # rest) = p # rest"
      and k: "takeWhile (missing E x) (ps @ p # rest) = ps"
      by simp_all
    show "search E x (ps @ p # rest) =
        (fst (attempt E x p),
         map (\<lambda>p. Call_ReadConfigFile (abs_path E p)) ps @ snd (attempt E x p))"
      unfolding search_def Let_def d k by simp
  qed
  from 1 2 3 4 5 show ?thesis by blast
qed

lemma example_search_paths:
  "configSearchPaths example_env = [''litefs.yml'', ''/root/litefs.yml'', ''/etc/litefs.yml'']"
  "configSearchPaths bad_home_config_env = [''litefs.yml'', ''/root/litefs.yml'', ''/etc/litefs.yml'']"
  by (simp_all add: configSearchPaths_def example_env_def bad_home_config_env_def)

lemma example_search:
  "search example_env True [''litefs.yml'', ''/root/litefs.yml'', ''/etc/litefs.yml''] =
     (Return (Some (Errorf ''config file not found'')),
      [Call_ReadConfigFile ''/work/litefs.yml'', Call_ReadConfigFile ''/root/litefs.yml'',
       Call_ReadConfigFile ''/etc/litefs.yml''])"
  by (simp add: search_def missing_def abs_path_def example_env_def Let_def)

lemma bad_home_search:
  "search bad_home_config_env True [''litefs.yml'', ''/root/litefs.yml'', ''/etc/litefs.yml''] =
     (Return (Some (Errorf ''cannot read config file at /root/litefs.yml: yaml: bad'')),
      [Call_ReadConfigFile ''/work/litefs.yml'', Call_ReadConfigFile ''/root/litefs.yml''])"
  by (simp add: search_def missing_def attempt_def abs_path_def example_env_def
        bad_home_config_env_def Let_def)

lemma example_explicit_read:
  "fst (ReadConfigFile example_env ''/x.yml'' True) = Some (OsNotExist ''no such file'')"
  by (simp add: example_env_def)

theorem parseConfig_search_witness:
  "result_of (parseConfig example_env [] True (NewMountCommand static_config, globals0, [])) =
     Return (Some (Errorf ''config file not found'')) \<and>
   trace_of (parseConfig example_env [] True (NewMountCommand static_config, globals0, [])) =
     [Call_ReadConfigFile ''/work/litefs.yml'', Call_ReadConfigFile ''/root/litefs.yml'',
      Call_ReadConfigFile ''/etc/litefs.yml''] \<and>
   result_of (parseConfig bad_home_config_env [] True
      (NewMountCommand static_config, globals0, [])) =
     Return (Some (Errorf ''cannot read config file at /root/litefs.yml: yaml: bad'')) \<and>
   trace_of (parseConfig bad_home_config_env [] True
      (NewMountCommand static_config, globals0, [])) =
     [Call_ReadConfigFile ''/work/litefs.yml'', Call_ReadConfigFile ''/root/litefs.yml''] \<and>
   result_of (parseConfig example_env ''/x.yml'' True
      (NewMountCommand static_config, globals0, [])) =
     Return (Some (OsNotExist ''no such file'')) \<and>
   trace_of (parseConfig example_env ''/x.yml'' True
      (NewMountCommand static_config, globals0, [])) = [Call_ReadConfigFile ''/x.yml'']"
  using parseConfig_search[of "[]" example_env True "NewMountCommand static_config" globals0 "[]" "[]"]
    parseConfig_search[of "[]" bad_home_config_env True "NewMountCommand static_config" globals0 "[]" "[]"]
    parseConfig_search[of "''/x.yml''" example_env True "NewMountCommand static_config" globals0 "[]" "[]"]
  unfolding example_search_paths example_search bad_home_search example_explicit_read
  by simp

end
